theory Spec2Isabelle
  imports Complex_Main "HOL-Library.Multiset"
begin

section \<open>JavaScript strings\<close>

text \<open>
  A JavaScript string is a sequence of UTF-16 code units; \<open>length\<close>, \<open>substring\<close>,
  \<open>includes\<close> and the regular expressions of the scripts (none has the \<open>u\<close> flag) all
  work on code units. A code unit is modelled as a natural number, a string as a list
  of them. \<open>ascii\<close> embeds an ASCII literal; the Chinese labels of the scripts are
  written out as code points.
\<close>

type_synonym jschar = nat
type_synonym jsstring = "nat list"

definition ascii :: "string \<Rightarrow> jsstring" where
  "ascii s = map of_char s"

text \<open>ECMAScript LineTerminator: LF, CR, U+2028, U+2029.\<close>

definition isLineTerminator :: "jschar \<Rightarrow> bool" where
  "isLineTerminator c = (c = 0x0A \<or> c = 0x0D \<or> c = 0x2028 \<or> c = 0x2029)"

text \<open>
  The class \<open>\s\<close> and the characters stripped by \<open>trim()\<close>: ECMAScript WhiteSpace
  (TAB, VT, FF, SP, NBSP, U+FEFF and the category Zs) together with LineTerminator.
\<close>

definition isWhiteSpace :: "jschar \<Rightarrow> bool" where
  "isWhiteSpace c =
     (c = 0x09 \<or> c = 0x0B \<or> c = 0x0C \<or> c = 0x20 \<or> c = 0xA0 \<or> c = 0xFEFF \<or>
      c = 0x1680 \<or> (0x2000 \<le> c \<and> c \<le> 0x200A) \<or> c = 0x202F \<or> c = 0x205F \<or>
      c = 0x3000 \<or> isLineTerminator c)"

text \<open>The class \<open>.\<close> (no \<open>s\<close> flag): any code unit but a line terminator.\<close>

definition dot :: "jschar \<Rightarrow> bool" where
  "dot c = (\<not> isLineTerminator c)"

definition trim :: "jsstring \<Rightarrow> jsstring" where
  "trim s = rev (dropWhile isWhiteSpace (rev (dropWhile isWhiteSpace s)))"

definition startsWith :: "jsstring \<Rightarrow> jsstring \<Rightarrow> bool" where
  "startsWith s p = (take (length p) s = p)"

text \<open>\<open>s.includes(k)\<close>: \<open>k\<close> occurs in \<open>s\<close> as a contiguous run.\<close>

fun includes_js :: "jsstring \<Rightarrow> jsstring \<Rightarrow> bool" where
  "includes_js [] k = (k = [])"
| "includes_js (c # cs) k = (startsWith (c # cs) k \<or> includes_js cs k)"

text \<open>\<open>s.split(sep)\<close> for a separator that is one code unit of the class \<open>P\<close>.\<close>

fun split :: "(jschar \<Rightarrow> bool) \<Rightarrow> jsstring \<Rightarrow> jsstring list" where
  "split P [] = [[]]"
| "split P (c # cs) =
     (if P c then [] # split P cs
      else (case split P cs of
              [] \<Rightarrow> [[c]]
            | t # ts \<Rightarrow> (c # t) # ts))"

text \<open>\<open>xs.join(sep)\<close>.\<close>

fun join :: "jsstring \<Rightarrow> jsstring list \<Rightarrow> jsstring" where
  "join sep [] = []"
| "join sep [x] = x"
| "join sep (x # y # ys) = x @ sep @ join sep (y # ys)"

section \<open>The regular expressions of the scripts\<close>

text \<open>
  Every pattern of the scripts is a sequence of: a line anchor (\<open>^\<close> or \<open>$\<close> under the
  \<open>m\<close> flag), literal text, and a greedy repetition of a character class (\<open>\s*\<close>,
  \<open>.+\<close>), the latter possibly wrapped in capture group 1. The matcher is the
  backtracking one of ECMAScript: a greedy repetition first takes the longest run and
  gives characters back one at a time while the rest of the pattern fails.
\<close>

datatype atom =
    LineStart
  | LineEnd
  | Lit jsstring
  | Many nat "jschar \<Rightarrow> bool" bool
    \<comment> \<open>least number of repetitions, the class, and whether it is group 1\<close>

text \<open>The first alternative that succeeds.\<close>

fun first_some :: "'a option list \<Rightarrow> 'a option" where
  "first_some [] = None"
| "first_some (None # xs) = first_some xs"
| "first_some (Some y # xs) = Some y"

text \<open>
  \<open>match_here as pre rest cap\<close> matches the atoms \<open>as\<close> at the position between the
  consumed text \<open>pre\<close> and \<open>rest\<close>; it returns what is left of the input after the
  match and the text of group 1.
\<close>

fun match_here :: "atom list \<Rightarrow> jsstring \<Rightarrow> jsstring \<Rightarrow> jsstring option
    \<Rightarrow> (jsstring \<times> jsstring option) option" where
  "match_here [] pre rest cap = Some (rest, cap)"
| "match_here (LineStart # as) pre rest cap =
     (if pre = [] \<or> isLineTerminator (last pre) then match_here as pre rest cap else None)"
| "match_here (LineEnd # as) pre rest cap =
     (if rest = [] \<or> isLineTerminator (hd rest) then match_here as pre rest cap else None)"
| "match_here (Lit l # as) pre rest cap =
     (if startsWith rest l
      then match_here as (pre @ l) (drop (length l) rest) cap else None)"
| "match_here (Many lo P g # as) pre rest cap =
     first_some
       (map (\<lambda>n. match_here as (pre @ take n rest) (drop n rest)
                   (if g then Some (take n rest) else cap))
            (rev [lo ..< Suc (length (takeWhile P rest))]))"

record rmatch =
  before :: jsstring
  matched :: jsstring
  after :: jsstring
  group1 :: "jsstring option"

text \<open>\<open>exec\<close>: the leftmost position at which the pattern matches.\<close>

definition found :: "jsstring \<Rightarrow> jsstring \<Rightarrow> (jsstring \<times> jsstring option) \<Rightarrow> rmatch" where
  "found pre rest r =
     \<lparr>before = pre, matched = take (length rest - length (fst r)) rest,
      after = fst r, group1 = snd r\<rparr>"

fun search_from :: "atom list \<Rightarrow> jsstring \<Rightarrow> jsstring \<Rightarrow> rmatch option" where
  "search_from as pre [] = map_option (found pre []) (match_here as pre [] None)"
| "search_from as pre (c # cs) =
     (case match_here as pre (c # cs) None of
        Some r \<Rightarrow> Some (found pre (c # cs) r)
      | None \<Rightarrow> search_from as (pre @ [c]) cs)"

definition exec :: "atom list \<Rightarrow> jsstring \<Rightarrow> rmatch option" where
  "exec as s = search_from as [] s"

text \<open>
  \<open>GetSubstitution\<close> of \<open>String.prototype.replace\<close> for a pattern without capture
  groups: in the replacement text \<open>$$\<close> stands for a dollar sign, \<open>$&\<close> for
  the matched text, \<open>$`\<close> for the text before the match and \<open>$'\<close> for the text after
  it; any other \<open>$\<close> (also \<open>$1\<close>, there being no group) is copied.
\<close>

fun getSubstitution :: "rmatch \<Rightarrow> jsstring \<Rightarrow> jsstring" where
  "getSubstitution m [] = []"
| "getSubstitution m [c] = [c]"
| "getSubstitution m (c # d # cs) =
     (if c = 0x24 \<and> d = 0x24 then 0x24 # getSubstitution m cs
      else if c = 0x24 \<and> d = 0x26 then matched m @ getSubstitution m cs
      else if c = 0x24 \<and> d = 0x60 then before m @ getSubstitution m cs
      else if c = 0x24 \<and> d = 0x27 then after m @ getSubstitution m cs
      else c # getSubstitution m (d # cs))"

text \<open>\<open>s.replace(re, text)\<close> for a pattern without the \<open>g\<close> flag: the first match only.\<close>

definition replace :: "atom list \<Rightarrow> jsstring \<Rightarrow> jsstring \<Rightarrow> jsstring" where
  "replace re repl s =
     (case exec re s of
        None \<Rightarrow> s
      | Some m \<Rightarrow> before m @ getSubstitution m repl @ after m)"

section \<open>The file system\<close>

text \<open>
  An entry of a partition directory is a file or a directory with its last-modified
  time in milliseconds; a record directory holds at most the two documents
  \<open>summary.md\<close> and \<open>conversation.md\<close>, which are regular files when present. A partition
  is the list of its entries in the order \<open>readdirSync\<close> returns them; entry names are
  single path components, and a function that lists the names and then reads or stats
  \<open>path.join(dir, name)\<close> is modelled as running over the entries. A partition
  directory that does not exist behaves in every
  function below like an empty one (\<open>ensureDataDir\<close> creates it, the readers return
  \<open>[]\<close>), so the two are not told apart.
\<close>

datatype node =
    File int
  | Dir int "jsstring option" "jsstring option"
    \<comment> \<open>mtime, \<open>summary.md\<close>, \<open>conversation.md\<close>\<close>

fun mtime_of :: "node \<Rightarrow> int" where
  "mtime_of (File t) = t"
| "mtime_of (Dir t s c) = t"

fun summary_of :: "node \<Rightarrow> jsstring option" where
  "summary_of (File t) = None"
| "summary_of (Dir t s c) = s"

fun conversation_of :: "node \<Rightarrow> jsstring option" where
  "conversation_of (File t) = None"
| "conversation_of (Dir t s c) = c"

type_synonym directory = "(jsstring \<times> node) list"

record fs =
  active :: directory
  archive :: directory
  indexFile :: "jsstring option"
  skillFile :: "jsstring option"

definition readdirSync :: "directory \<Rightarrow> jsstring list" where
  "readdirSync d = map fst d"

definition existsSync :: "directory \<Rightarrow> jsstring \<Rightarrow> bool" where
  "existsSync d n = (map_of d n \<noteq> None)"

section \<open>paths.js\<close>

record config =
  maxActiveMemories :: nat
  archiveAfterDays :: nat

definition getConfig :: config where
  "getConfig = \<lparr>maxActiveMemories = 20, archiveAfterDays = 14\<rparr>"

definition initialContent :: jsstring where
  "initialContent = ascii
''# Active Memory Index\<newline>\<newline>> This file is auto-updated by scripts, recording summary info of all active memories.\<newline>\<newline>## Index Table\<newline>\<newline><!-- INDEX_START -->\<newline>| Memory ID | Topic | Keywords | Time |\<newline>|-----------|-------|----------|------|\<newline>| (no active memories) | - | - | - |\<newline><!-- INDEX_END -->\<newline>\<newline>## Keywords Summary\<newline>\<newline><!-- KEYWORDS_START -->\<newline>(no valid keywords)\<newline><!-- KEYWORDS_END -->\<newline>\<newline>## Usage\<newline>\<newline>1. Find related memories from the index table\<newline>2. Read the memory's `active/{MemoryID}/summary.md` for details\<newline>3. If needed, read `active/{MemoryID}/conversation.md` for raw conversation\<newline>''"

text \<open>\<open>ensureDataDir\<close>: the partitions are created when missing, and so is the index.\<close>

definition ensureDataDir :: "fs \<Rightarrow> fs" where
  "ensureDataDir s =
     (if indexFile s = None then s\<lparr>indexFile := Some initialContent\<rparr> else s)"

section \<open>update\_index.js\<close>

record summary_info =
  topic :: jsstring
  keywordsText :: jsstring
    \<comment> \<open>the field \<open>keywords\<close> of the source\<close>
  time :: jsstring

text \<open>The English and the Chinese patterns of \<open>extractMemoryInfo\<close>, in source order.\<close>

definition titleEn :: "atom list" where
  "titleEn = [LineStart, Lit (ascii ''# Conversation Memory:''),
              Many 0 isWhiteSpace False, Many 1 dot True, LineEnd]"

definition titleZh :: "atom list" where
  "titleZh = [LineStart, Lit [0x23, 0x20, 0x5BF9, 0x8BDD, 0x8BB0, 0x5FC6, 0xFF1A],
              Many 1 dot True, LineEnd]"

definition keywordsEn :: "atom list" where
  "keywordsEn = [Lit (ascii ''**Keywords**:''),
                 Many 0 isWhiteSpace False, Many 1 dot True, LineEnd]"

definition keywordsZh :: "atom list" where
  "keywordsZh = [Lit [0x2A, 0x2A, 0x5173, 0x952E, 0x8BCD, 0x2A, 0x2A, 0xFF1A],
                 Many 1 dot True, LineEnd]"

definition timeEn :: "atom list" where
  "timeEn = [Lit (ascii ''**Time**:''),
             Many 0 isWhiteSpace False, Many 1 dot True, LineEnd]"

definition timeZh :: "atom list" where
  "timeZh = [Lit [0x2A, 0x2A, 0x65F6, 0x95F4, 0x2A, 0x2A, 0xFF1A],
             Many 1 dot True, LineEnd]"

text \<open>\<open>content.match(re)\<close> followed by \<open>[1]\<close>: the text of group 1 of the first match.\<close>

definition match1 :: "atom list \<Rightarrow> jsstring \<Rightarrow> jsstring option" where
  "match1 re s = (case exec re s of None \<Rightarrow> None | Some m \<Rightarrow> group1 m)"

text \<open>\<open>x.split(' ')[0]\<close>.\<close>

definition firstWord :: "jsstring \<Rightarrow> jsstring" where
  "firstWord s = (case split (\<lambda>c. c = 0x20) s of [] \<Rightarrow> [] | w # ws \<Rightarrow> w)"

text \<open>
  \<open>extractMemoryInfo\<close>: the argument is the content of \<open>summary.md\<close>, \<open>None\<close> when
  the file does not exist.
\<close>

definition extractMemoryInfo :: "jsstring option \<Rightarrow> summary_info option" where
  "extractMemoryInfo summary =
     (case summary of
        None \<Rightarrow> None
      | Some content \<Rightarrow>
          Some \<lparr>topic =
                  (case match1 titleEn content of
                     Some t \<Rightarrow> trim t
                   | None \<Rightarrow>
                       (case match1 titleZh content of
                          Some t \<Rightarrow> trim t
                        | None \<Rightarrow> ascii ''Unknown Topic'')),
                keywordsText =
                  (case match1 keywordsEn content of
                     Some k \<Rightarrow> trim k
                   | None \<Rightarrow>
                       (case match1 keywordsZh content of
                          Some k \<Rightarrow> trim k
                        | None \<Rightarrow> [])),
                time =
                  (case match1 timeEn content of
                     Some t \<Rightarrow> firstWord (trim t)
                   | None \<Rightarrow>
                       (case match1 timeZh content of
                          Some t \<Rightarrow> firstWord (trim t)
                        | None \<Rightarrow> []))\<rparr>)"

text \<open>
  \<open>Array.prototype.sort\<close> is stable; for a comparator that is consistent (as a
  difference of keys and \<open>localeCompare\<close> are) every stable sort returns the list that
  stable insertion returns.
\<close>

fun insert_by :: "('a \<Rightarrow> 'a \<Rightarrow> int) \<Rightarrow> 'a \<Rightarrow> 'a list \<Rightarrow> 'a list" where
  "insert_by cmp x [] = [x]"
| "insert_by cmp x (y # ys) =
     (if cmp x y \<le> 0 then x # y # ys else y # insert_by cmp x ys)"

definition sort_by :: "('a \<Rightarrow> 'a \<Rightarrow> int) \<Rightarrow> 'a list \<Rightarrow> 'a list" where
  "sort_by cmp xs = foldr (insert_by cmp) xs []"

definition memPrefix :: jsstring where
  "memPrefix = ascii ''mem-''"

text \<open>
  An element of \<open>memories\<close> in update\_index.js is \<open>{id: dir, ...info}\<close>: the pair of the
  directory name and the extracted fields.
\<close>

type_synonym index_memory = "jsstring \<times> summary_info"

text \<open>
  \<open>getActiveMemories\<close> of update\_index.js. \<open>localeCompare\<close>, the collation of the
  host's locale, is a parameter.
\<close>

definition getActiveMemories :: "(jsstring \<Rightarrow> jsstring \<Rightarrow> int) \<Rightarrow> directory \<Rightarrow> index_memory list" where
  "getActiveMemories localeCompare activeDir =
     (let dirs = filter (\<lambda>(name, nd). startsWith name memPrefix) activeDir;
          memories = concat (map (\<lambda>(dir, nd).
                        (case extractMemoryInfo (summary_of nd) of
                           None \<Rightarrow> []
                         | Some info \<Rightarrow> [(dir, info)])) dirs)
      in sort_by (\<lambda>a b. localeCompare (fst b) (fst a)) memories)"

definition tableHead :: jsstring where
  "tableHead = ascii
''| Memory ID | Topic | Keywords | Date |\<newline>|-----------|-------|----------|------|\<newline>''"

definition tableRow :: "index_memory \<Rightarrow> jsstring" where
  "tableRow mem =
     (let kw = (if length (keywordsText (snd mem)) > 30
                then take 30 (keywordsText (snd mem)) @ ascii ''...''
                else keywordsText (snd mem))
      in ascii ''| '' @ fst mem @ ascii '' | '' @ topic (snd mem) @ ascii '' | '' @ kw
         @ ascii '' | '' @ time (snd mem) @ ascii '' |\<newline>'')"

definition generateIndexTable :: "index_memory list \<Rightarrow> jsstring" where
  "generateIndexTable memories =
     (if memories = []
      then tableHead @ ascii ''| (No active memories) | - | - | - |''
      else trim (tableHead @ concat (map tableRow memories)))"

definition placeholders :: "jsstring list" where
  "placeholders =
     [ascii ''{keyword1}'', ascii ''{keyword2}'', ascii ''{keyword3}'',
      [0x7B, 0x5173, 0x952E, 0x8BCD, 0x31, 0x7D],
      [0x7B, 0x5173, 0x952E, 0x8BCD, 0x32, 0x7D],
      [0x7B, 0x5173, 0x952E, 0x8BCD, 0x33, 0x7D]]"

text \<open>The separators of \<open>/[,\<dots>]/\<close>: the ASCII comma and the full-width comma U+FF0C.\<close>

definition isComma :: "jschar \<Rightarrow> bool" where
  "isComma c = (c = 0x2C \<or> c = 0xFF0C)"

text \<open>
  A JavaScript \<open>Set\<close> of strings is the list of its elements in insertion order;
  \<open>add\<close> appends an element that is not yet there.
\<close>

definition set_add :: "jsstring \<Rightarrow> jsstring list \<Rightarrow> jsstring list" where
  "set_add k keywordSet = (if k \<in> set keywordSet then keywordSet else keywordSet @ [k])"

definition addKeyword :: "jsstring \<Rightarrow> jsstring list \<Rightarrow> jsstring list" where
  "addKeyword k keywordSet =
     (if k \<noteq> [] \<and> k \<notin> set placeholders then set_add k keywordSet else keywordSet)"

definition collectAllKeywords :: "index_memory list \<Rightarrow> jsstring list" where
  "collectAllKeywords memories =
     fold (\<lambda>mem keywordSet.
             if keywordsText (snd mem) \<noteq> []
             then fold addKeyword (map trim (split isComma (keywordsText (snd mem)))) keywordSet
             else keywordSet)
          memories []"

definition indexContent :: "jsstring \<Rightarrow> jsstring \<Rightarrow> jsstring" where
  "indexContent indexTable keywordsStr =
     ascii ''# Active Memory Index\<newline>\<newline>> This file is automatically updated by scripts, recording summary info of all active memories.\<newline>\<newline>## Index Table\<newline>\<newline><!-- INDEX_START -->\<newline>''
     @ indexTable
     @ ascii ''\<newline><!-- INDEX_END -->\<newline>\<newline>## Keywords Summary\<newline>\<newline><!-- KEYWORDS_START -->\<newline>''
     @ keywordsStr
     @ ascii ''\<newline><!-- KEYWORDS_END -->\<newline>\<newline>## Usage\<newline>\<newline>1. Find relevant memory from the index table\<newline>2. Read `active/{memory-id}/summary.md` for details\<newline>3. For raw conversation, read `active/{memory-id}/conversation.md`\<newline>''"

definition updateIndexFile :: "index_memory list \<Rightarrow> fs \<Rightarrow> fs" where
  "updateIndexFile memories s =
     (let indexTable = generateIndexTable memories;
          allKeywords = collectAllKeywords memories;
          keywordsStr = (if length allKeywords > 0 then join (ascii '', '') allKeywords
                         else ascii ''(No valid keywords yet)'')
      in s\<lparr>indexFile := Some (indexContent indexTable keywordsStr)\<rparr>)"

definition skillEn :: "atom list" where
  "skillEn = [Lit (ascii ''Active memory keywords:''),
              Many 0 isWhiteSpace False, Many 1 dot False]"

definition skillZh :: "atom list" where
  "skillZh = [Lit [0x6D3B, 0x8DC3, 0x8BB0, 0x5FC6, 0x5173, 0x952E, 0x8BCD, 0xFF1A],
              Many 1 dot False]"

text \<open>The text spliced into \<open>SKILL.md\<close>: the first 15 keywords.\<close>

definition descriptionKeywords :: "index_memory list \<Rightarrow> jsstring" where
  "descriptionKeywords memories =
     (let allKeywords = collectAllKeywords memories
      in if length allKeywords > 0 then join (ascii '', '') (take 15 allKeywords)
         else ascii ''(no active memories)'')"

definition updateSkillFile :: "index_memory list \<Rightarrow> fs \<Rightarrow> fs" where
  "updateSkillFile memories s =
     (case skillFile s of
        None \<Rightarrow> s
      | Some content \<Rightarrow>
          (let keywordsStr = descriptionKeywords memories;
               content1 = replace skillEn (ascii ''Active memory keywords: '' @ keywordsStr) content;
               content2 = replace skillZh (ascii ''Active memory keywords: '' @ keywordsStr) content1
           in s\<lparr>skillFile := Some content2\<rparr>))"

text \<open>\<open>main\<close> of update\_index.js, the Index Builder.\<close>

definition main :: "(jsstring \<Rightarrow> jsstring \<Rightarrow> int) \<Rightarrow> fs \<Rightarrow> fs" where
  "main localeCompare s =
     (let s1 = ensureDataDir s;
          memories = getActiveMemories localeCompare (active s1)
      in updateSkillFile memories (updateIndexFile memories s1))"

section \<open>activate\_memory.js\<close>

datatype partition = Active | Archive

text \<open>A path below the memories directory: the partition and the entry name.\<close>

type_synonym path = "partition \<times> jsstring"

fun partitionDir :: "fs \<Rightarrow> partition \<Rightarrow> directory" where
  "partitionDir s Active = active s"
| "partitionDir s Archive = archive s"

fun setPartitionDir :: "partition \<Rightarrow> directory \<Rightarrow> fs \<Rightarrow> fs" where
  "setPartitionDir Active d s = s\<lparr>active := d\<rparr>"
| "setPartitionDir Archive d s = s\<lparr>archive := d\<rparr>"

record memory_info =
  info_topic :: jsstring
  info_keywords :: jsstring

text \<open>
  \<open>getMemoryInfo\<close>, the same text in activate\_memory.js and archive\_old\_memories.js:
  the Chinese patterns only, and the default topic U+672A U+77E5 U+4E3B U+9898.
\<close>

definition getMemoryInfo :: "jsstring option \<Rightarrow> memory_info option" where
  "getMemoryInfo summary =
     (case summary of
        None \<Rightarrow> None
      | Some content \<Rightarrow>
          Some \<lparr>info_topic =
                  (case match1 titleZh content of
                     Some t \<Rightarrow> trim t
                   | None \<Rightarrow> [0x672A, 0x77E5, 0x4E3B, 0x9898]),
                info_keywords =
                  (case match1 keywordsZh content of
                     Some k \<Rightarrow> trim k
                   | None \<Rightarrow> [])\<rparr>)"

record memory =
  name :: jsstring
  path :: path
  mtime :: int
  mem_topic :: jsstring
  mem_keywords :: jsstring

text \<open>The topic of a memory without \<open>summary.md\<close>: U+672A U+77E5.\<close>

definition topicOr :: "memory_info option \<Rightarrow> jsstring" where
  "topicOr info = (case info of Some i \<Rightarrow> info_topic i | None \<Rightarrow> [0x672A, 0x77E5])"

definition keywordsOr :: "memory_info option \<Rightarrow> jsstring" where
  "keywordsOr info = (case info of Some i \<Rightarrow> info_keywords i | None \<Rightarrow> [])"

definition getMemories :: "partition \<Rightarrow> fs \<Rightarrow> memory list" where
  "getMemories dir s =
     sort_by (\<lambda>a b. mtime b - mtime a)
       (map (\<lambda>(n, nd).
               (let info = getMemoryInfo (summary_of nd)
                in \<lparr>name = n, path = (dir, n), mtime = mtime_of nd,
                    mem_topic = topicOr info, mem_keywords = keywordsOr info\<rparr>))
            (filter (\<lambda>(n, nd). startsWith n memPrefix) (partitionDir s dir)))"

text \<open>\<open>conversation.md\<close> below a path, when it exists.\<close>

definition readConversation :: "fs \<Rightarrow> path \<Rightarrow> jsstring option" where
  "readConversation s p =
     (case map_of (partitionDir s (fst p)) (snd p) of
        None \<Rightarrow> None
      | Some nd \<Rightarrow> conversation_of nd)"

text \<open>
  \<open>searchMemories\<close> returns the list it prints. \<open>toLowerCase\<close>, the Unicode case
  mapping of the host, is a parameter.
\<close>

definition searchMemories :: "(jsstring \<Rightarrow> jsstring) \<Rightarrow> jsstring \<Rightarrow> fs \<Rightarrow> (memory \<times> partition) list" where
  "searchMemories toLowerCase keyword s =
     (let activeMemories = getMemories Active s;
          archiveMemories = getMemories Archive s;
          allMemories = map (\<lambda>m. (m, Active)) activeMemories
                        @ map (\<lambda>m. (m, Archive)) archiveMemories;
          keywordLower = toLowerCase keyword
      in filter (\<lambda>(mem, location).
           if includes_js (toLowerCase (name mem)) keywordLower then True
           else if mem_topic mem \<noteq> [] \<and> includes_js (toLowerCase (mem_topic mem)) keywordLower
           then True
           else if mem_keywords mem \<noteq> []
                   \<and> includes_js (toLowerCase (mem_keywords mem)) keywordLower
           then True
           else (case readConversation s (path mem) of
                   Some content \<Rightarrow> includes_js (toLowerCase content) keywordLower
                 | None \<Rightarrow> False))
         allMemories)"

text \<open>
  \<open>fs.renameSync\<close> with the POSIX rules for a target that exists: an empty directory
  gives way to a directory and a file to a file, anything else is an error. The entry
  keeps its content and its modification time. The model puts it at the end of the
  listing of its new directory; this position is a choice of the model, the order of
  a listing of a real directory being the file system's.
\<close>

datatype errno = ENOENT | ENOTEMPTY | ENOTDIR | EISDIR

datatype failure =
    DuplicateRecord
  | NotFound
  | Uncaught errno

fun replaceable :: "node \<Rightarrow> node \<Rightarrow> errno option" where
  "replaceable (Dir t s c) (Dir t' None None) = None"
| "replaceable (Dir t s c) (Dir t' s' c') = Some ENOTEMPTY"
| "replaceable (Dir t s c) (File t') = Some ENOTDIR"
| "replaceable (File t) (Dir t' s' c') = Some EISDIR"
| "replaceable (File t) (File t') = None"

definition removeEntry :: "jsstring \<Rightarrow> directory \<Rightarrow> directory" where
  "removeEntry n d = filter (\<lambda>(k, nd). k \<noteq> n) d"

definition moveEntry :: "path \<Rightarrow> path \<Rightarrow> node \<Rightarrow> fs \<Rightarrow> fs" where
  "moveEntry old new nd s =
     (let s1 = setPartitionDir (fst old) (removeEntry (snd old) (partitionDir s (fst old))) s
      in setPartitionDir (fst new)
           (removeEntry (snd new) (partitionDir s1 (fst new)) @ [(snd new, nd)]) s1)"

definition renameSync :: "path \<Rightarrow> path \<Rightarrow> fs \<Rightarrow> failure + fs" where
  "renameSync old new s =
     (case map_of (partitionDir s (fst old)) (snd old) of
        None \<Rightarrow> Inl (Uncaught ENOENT)
      | Some nd \<Rightarrow>
          (case map_of (partitionDir s (fst new)) (snd new) of
             None \<Rightarrow> Inr (moveEntry old new nd s)
           | Some target \<Rightarrow>
               (case replaceable nd target of
                  Some e \<Rightarrow> Inl (Uncaught e)
                | None \<Rightarrow> Inr (moveEntry old new nd s))))"

text \<open>
  \<open>activateMemory\<close>. The outcome is what the process reports: the memory was
  activated, it was active already (a message and a plain return), or the process
  ends with a failure.
\<close>

datatype outcome = Activated | AlreadyActive | Failed failure

fun exitCode :: "outcome \<Rightarrow> nat" where
  "exitCode Activated = 0"
| "exitCode AlreadyActive = 0"
| "exitCode (Failed e) = 1"

definition activateMemory :: "(jsstring \<Rightarrow> jsstring \<Rightarrow> int) \<Rightarrow> jsstring \<Rightarrow> fs \<Rightarrow> outcome \<times> fs" where
  "activateMemory localeCompare memoryName s =
     (let s1 = ensureDataDir s
      in if \<not> existsSync (archive s1) memoryName
         then (if existsSync (active s1) memoryName then (AlreadyActive, s1)
               else (Failed NotFound, s1))
         else (case renameSync (Archive, memoryName) (Active, memoryName) s1 of
                 Inl e \<Rightarrow> (Failed e, s1)
               | Inr s2 \<Rightarrow> (Activated, main localeCompare s2)))"

section \<open>archive\_old\_memories.js\<close>

record active_memory = memory +
  daysSinceModified :: real

text \<open>
  \<open>getActiveMemories\<close> of archive\_old\_memories.js; \<open>now\<close> is \<open>Date.now()\<close>. The
  quotient is the exact one: both times are whole milliseconds, and for times of the
  size a clock gives the rounding of the division in double precision never changes
  how the quotient compares with a whole number of days.
\<close>

definition getActiveMemories_archive :: "int \<Rightarrow> fs \<Rightarrow> active_memory list" where
  "getActiveMemories_archive now s =
     sort_by (\<lambda>a b. mtime a - mtime b)
       (map (\<lambda>(n, nd).
               (let info = getMemoryInfo (summary_of nd)
                in \<lparr>name = n, path = (Active, n), mtime = mtime_of nd,
                    mem_topic = topicOr info, mem_keywords = keywordsOr info,
                    daysSinceModified = real_of_int (now - mtime_of nd) / (1000 * 60 * 60 * 24)\<rparr>))
            (filter (\<lambda>(n, nd). startsWith n memPrefix) (active s)))"

definition getArchivedMemories :: "fs \<Rightarrow> jsstring list" where
  "getArchivedMemories s = filter (\<lambda>n. startsWith n memPrefix) (readdirSync (archive s))"

text \<open>\<open>String(n)\<close> for a natural number.\<close>

fun string_of_nat :: "nat \<Rightarrow> jsstring" where
  "string_of_nat n =
     (if n < 10 then [0x30 + n] else string_of_nat (n div 10) @ [0x30 + n mod 10])"

declare string_of_nat.simps [simp del]

text \<open>The three reasons, in the order age, capacity, forced.\<close>

definition reasonAge :: "config \<Rightarrow> jsstring" where
  "reasonAge cfg = [0x8D85, 0x8FC7] @ ascii '' '' @ string_of_nat (archiveAfterDays cfg)
     @ ascii '' '' @ [0x5929, 0x672A, 0x4FEE, 0x6539]"

definition reasonCapacity :: "config \<Rightarrow> jsstring" where
  "reasonCapacity cfg = [0x6D3B, 0x8DC3, 0x8BB0, 0x5FC6, 0x8D85, 0x8FC7] @ ascii '' ''
     @ string_of_nat (maxActiveMemories cfg) @ ascii '' '' @ [0x4E2A, 0x9650, 0x5236]"

definition reasonForced :: jsstring where
  "reasonForced = [0x5F3A, 0x5236, 0x5F52, 0x6863]"

text \<open>An element of \<open>toArchive\<close> is \<open>{...mem, reason}\<close>.\<close>

type_synonym candidate = "active_memory \<times> jsstring"

definition listed :: "candidate list \<Rightarrow> active_memory \<Rightarrow> bool" where
  "listed toArchive m = (find (\<lambda>a. name (fst a) = name m) toArchive \<noteq> None)"

text \<open>
  \<open>getMemoriesToArchive\<close>: first its body, on the list \<open>memories\<close> that
  \<open>getActiveMemories\<close> has returned, then the function itself. The reasons are the
  strings of the source, and \<open>excess\<close> is an integer that may be negative.
\<close>

definition getMemoriesToArchive_from :: "config \<Rightarrow> bool \<Rightarrow> active_memory list \<Rightarrow> candidate list" where
  "getMemoriesToArchive_from cfg force memories =
     (let toArchive = concat (map (\<lambda>mem.
                         if daysSinceModified mem > real (archiveAfterDays cfg)
                         then [(mem, reasonAge cfg)] else []) memories);
          remaining = filter (\<lambda>m. \<not> listed toArchive m) memories
      in if length remaining > maxActiveMemories cfg \<or> force
         then (let excess = int (length remaining) - int (maxActiveMemories cfg)
               in if excess > 0 \<or> force
                  then (let count = (if force then 1 else excess)
                        in fold (\<lambda>mem acc.
                                   if \<not> listed acc mem
                                   then acc @ [(mem, if force then reasonForced
                                                     else reasonCapacity cfg)]
                                   else acc)
                                (take (nat count) remaining) toArchive)
                  else toArchive)
         else toArchive)"

definition getMemoriesToArchive :: "config \<Rightarrow> int \<Rightarrow> bool \<Rightarrow> fs \<Rightarrow> candidate list" where
  "getMemoriesToArchive cfg now force s =
     getMemoriesToArchive_from cfg force (getActiveMemories_archive now s)"

definition archiveMemory :: "active_memory \<Rightarrow> fs \<Rightarrow> failure + fs" where
  "archiveMemory memory s = renameSync (path memory) (Archive, name memory) (ensureDataDir s)"

text \<open>
  The \<open>forEach\<close> of \<open>runArchive\<close>. An exception of \<open>renameSync\<close> is not caught: it
  ends the process, and the result is the failure.
\<close>

fun archiveAll :: "candidate list \<Rightarrow> fs \<Rightarrow> failure + fs" where
  "archiveAll [] s = Inr s"
| "archiveAll (c # cs) s =
     (case archiveMemory (fst c) s of
        Inl e \<Rightarrow> Inl e
      | Inr s1 \<Rightarrow> archiveAll cs s1)"

definition runArchive :: "(jsstring \<Rightarrow> jsstring \<Rightarrow> int) \<Rightarrow> config \<Rightarrow> int \<Rightarrow> bool \<Rightarrow> bool \<Rightarrow> fs \<Rightarrow> failure + fs" where
  "runArchive localeCompare cfg now dryRun force s =
     (let toArchive = getMemoriesToArchive cfg now force s
      in if length toArchive = 0 then Inr s
         else if dryRun then Inr s
         else (case archiveAll toArchive s of
                 Inl e \<Rightarrow> Inl e
               | Inr s1 \<Rightarrow> Inr (main localeCompare s1)))"

section \<open>save\_memory.js\<close>

text \<open>
  What the getters of a \<open>Date\<close> return in local time, with \<open>getTime\<close> in milliseconds.
  The clock is read once for a call: every \<open>new Date()\<close> of \<open>createMemory\<close> is taken to
  give the same instant, which is also the modification time of the new directory.
\<close>

record jsdate =
  getTime :: int
  getFullYear :: nat
  getMonth :: nat
  getDate :: nat
  getHours :: nat
  getMinutes :: nat
  getSeconds :: nat

text \<open>\<open>String(n).padStart(2, '0')\<close>.\<close>

definition pad2 :: "nat \<Rightarrow> jsstring" where
  "pad2 n = (let d = string_of_nat n in if length d < 2 then replicate (2 - length d) 0x30 @ d else d)"

definition generateMemoryName :: "jsdate \<Rightarrow> jsstring" where
  "generateMemoryName now =
     ascii ''mem-'' @ string_of_nat (getFullYear now) @ pad2 (getMonth now + 1) @ pad2 (getDate now)
     @ ascii ''-'' @ pad2 (getHours now) @ pad2 (getMinutes now) @ pad2 (getSeconds now)"

definition formatDateTime :: "jsdate \<Rightarrow> jsstring" where
  "formatDateTime date =
     string_of_nat (getFullYear date) @ ascii ''-'' @ pad2 (getMonth date + 1) @ ascii ''-''
     @ pad2 (getDate date) @ ascii '' '' @ pad2 (getHours date) @ ascii '':'' @ pad2 (getMinutes date)"

definition generateSummaryTemplate :: "jsdate \<Rightarrow> jsstring" where
  "generateSummaryTemplate date =
     ascii ''# '' @ [0x5BF9, 0x8BDD, 0x8BB0, 0x5FC6, 0xFF1A] @ ascii ''{''
     @ [0x4E3B, 0x9898, 0x6807, 0x9898] @ ascii ''}\<newline>\<newline>## ''
     @ [0x5143, 0x4FE1, 0x606F] @ ascii ''\<newline>\<newline>- **'' @ [0x65F6, 0x95F4]
     @ ascii ''**'' @ [0xFF1A]
     @ formatDateTime date
     @
     ascii ''\<newline>- **'' @ [0x6301, 0x7EED] @ ascii ''**'' @ [0xFF1A, 0x7EA6]
     @ ascii '' {N} '' @ [0x5206, 0x949F] @ ascii ''\<newline>- **''
     @ [0x5BF9, 0x8BDD, 0x8F6E, 0x6B21] @ ascii ''**'' @ [0xFF1A] @ ascii ''{N} ''
     @ [0x8F6E] @ ascii ''\<newline>- **'' @ [0x5173, 0x952E, 0x8BCD] @ ascii ''**''
     @ [0xFF1A] @ ascii ''{'' @ [0x5173, 0x952E, 0x8BCD] @ ascii ''1}, {''
     @ [0x5173, 0x952E, 0x8BCD] @ ascii ''2}, {'' @ [0x5173, 0x952E, 0x8BCD]
     @ ascii ''3}\<newline>\<newline>## '' @ [0x4E3B, 0x9898, 0x6458, 0x8981]
     @ ascii ''\<newline>\<newline>{'' @ [0x7528] @ ascii '' 1-2 ''
     @ [0x6BB5, 0x8BDD, 0x6982, 0x62EC, 0x8FD9, 0x6B21, 0x5BF9, 0x8BDD, 0x7684, 0x4E3B, 0x9898, 0x548C, 0x80CC, 0x666F]
     @ ascii ''}\<newline>\<newline>## '' @ [0x5173, 0x952E, 0x51B3, 0x7B56]
     @ ascii ''\<newline>\<newline>1. {'' @ [0x51B3, 0x7B56] @ ascii ''1}\<newline>2. {''
     @ [0x51B3, 0x7B56] @ ascii ''2}\<newline>3. ...\<newline>\<newline>## ''
     @ [0x91CD, 0x8981, 0x7ED3, 0x8BBA] @ ascii ''\<newline>\<newline>- {''
     @ [0x7ED3, 0x8BBA] @ ascii ''1}\<newline>- {'' @ [0x7ED3, 0x8BBA]
     @ ascii ''2}\<newline>- ...\<newline>\<newline>## ''
     @ [0x5F85, 0x529E, 0x4E8B, 0x9879] @ ascii ''\<newline>\<newline>- [ ] {''
     @ [0x5F85, 0x529E] @ ascii ''1}\<newline>- [ ] {'' @ [0x5F85, 0x529E]
     @ ascii ''2}\<newline>- ...\<newline>\<newline>## ''
     @ [0x76F8, 0x5173, 0x6587, 0x4EF6] @ ascii ''\<newline>\<newline>- `{''
     @ [0x6587, 0x4EF6, 0x8DEF, 0x5F84] @ ascii ''1}` - {''
     @ [0x7B80, 0x8981, 0x8BF4, 0x660E] @ ascii ''}\<newline>- `{''
     @ [0x6587, 0x4EF6, 0x8DEF, 0x5F84] @ ascii ''2}` - {''
     @ [0x7B80, 0x8981, 0x8BF4, 0x660E]
     @ ascii ''}\<newline>- ...\<newline>\<newline>## '' @ [0x6EAF, 0x6E90]
     @ ascii ''\<newline>\<newline>''
     @ [0x5982, 0x9700, 0x67E5, 0x770B, 0x5B8C, 0x6574, 0x539F, 0x59CB, 0x5BF9, 0x8BDD, 0xFF0C, 0x8BF7, 0x53C2, 0x9605]
     @ ascii '' [conversation.md](conversation.md)\<newline>''"

definition generateConversationTemplate :: "jsdate \<Rightarrow> jsstring" where
  "generateConversationTemplate now =
     ascii ''# '' @ [0x539F, 0x59CB, 0x5BF9, 0x8BDD, 0x8BB0, 0x5F55]
     @ ascii ''\<newline>\<newline>## '' @ [0x5BF9, 0x8BDD, 0x4FE1, 0x606F]
     @ ascii ''\<newline>\<newline>- **'' @ [0x5F00, 0x59CB, 0x65F6, 0x95F4]
     @ ascii ''**'' @ [0xFF1A]
     @ (formatDateTime now @ ascii '':'' @ pad2 (getSeconds now))
     @
     ascii ''\<newline>- **'' @ [0x7ED3, 0x675F, 0x65F6, 0x95F4] @ ascii ''**'' @ [0xFF1A]
     @ ascii ''{YYYY-MM-DD HH:MM:SS}\<newline>- **'' @ [0x5BF9, 0x8BDD, 0x8F6E, 0x6B21]
     @ ascii ''**'' @ [0xFF1A] @ ascii ''{N} '' @ [0x8F6E]
     @ ascii ''\<newline>\<newline>---\<newline>\<newline>## ''
     @ [0x5BF9, 0x8BDD, 0x5185, 0x5BB9] @ ascii ''\<newline>\<newline>### ''
     @ [0x7528, 0x6237] @ ascii '' [{HH:MM:SS}]\<newline>\<newline>{''
     @ [0x7528, 0x6237, 0x7684, 0x7B2C, 0x4E00, 0x6761, 0x6D88, 0x606F]
     @ ascii ''}\<newline>\<newline>---\<newline>\<newline>### Claude [{HH:MM:SS}]\<newline>\<newline>{Claude ''
     @ [0x7684, 0x7B2C, 0x4E00, 0x6761, 0x56DE, 0x590D]
     @ ascii ''}\<newline>\<newline>---\<newline>\<newline>{''
     @ [0x7EE7, 0x7EED, 0x8BB0, 0x5F55, 0x6240, 0x6709, 0x5BF9, 0x8BDD, 0x8F6E, 0x6B21]
     @ ascii ''...}\<newline>''"

definition createMemory :: "jsstring \<Rightarrow> jsdate \<Rightarrow> fs \<Rightarrow> failure + fs" where
  "createMemory memoryName now s =
     (let s1 = ensureDataDir s
      in if existsSync (active s1) memoryName then Inl DuplicateRecord
         else Inr (s1\<lparr>active := active s1 @
                     [(memoryName, Dir (getTime now)
                                       (Some (generateSummaryTemplate now))
                                       (Some (generateConversationTemplate now)))]\<rparr>))"

text \<open>\<open>/^mem-\d{8}-\d{6}$/.test(name)\<close>, on which \<open>main\<close> only prints a warning.\<close>

definition isDigit :: "jschar \<Rightarrow> bool" where
  "isDigit c = (0x30 \<le> c \<and> c \<le> 0x39)"

definition isStandardName :: "jsstring \<Rightarrow> bool" where
  "isStandardName n =
     (length n = 19 \<and> take 4 n = ascii ''mem-'' \<and> list_all isDigit (take 8 (drop 4 n))
      \<and> take 1 (drop 12 n) = ascii ''-'' \<and> list_all isDigit (drop 13 n))"

text \<open>
  \<open>main\<close> of save\_memory.js: \<open>arg\<close> is \<open>args[0]\<close>, absent or empty when the name is to
  be generated.
\<close>

definition main_save :: "(jsstring \<Rightarrow> jsstring \<Rightarrow> int) \<Rightarrow> jsstring option \<Rightarrow> jsdate \<Rightarrow> fs \<Rightarrow> failure + fs" where
  "main_save localeCompare arg now s =
     (let memoryName = (case arg of
                          None \<Rightarrow> generateMemoryName now
                        | Some n \<Rightarrow> if n = [] then generateMemoryName now else n)
      in case createMemory memoryName now s of
           Inl e \<Rightarrow> Inl e
         | Inr s1 \<Rightarrow> Inr (main localeCompare s1))"

section \<open>The specification's aggregation of keywords\<close>

text \<open>
  The specification's \<open>aggregateKeywords\<close>, from its words: each raw keyword field is
  split on the comma separators, the pieces are trimmed, empty pieces and placeholder
  tokens are discarded, and the rest is united in first-seen order.
\<close>

definition keywordTokens :: "jsstring \<Rightarrow> jsstring list" where
  "keywordTokens field =
     filter (\<lambda>k. k \<noteq> [] \<and> k \<notin> set placeholders) (map trim (split isComma field))"

definition first_seen :: "'a list \<Rightarrow> 'a list" where
  "first_seen xs = rev (remdups (rev xs))"

definition aggregateKeywords :: "index_memory list \<Rightarrow> jsstring list" where
  "aggregateKeywords records =
     first_seen (concat (map (\<lambda>r. keywordTokens (keywordsText (snd r))) records))"

section \<open>Auxiliary notions of the statements\<close>

definition hasSummary :: "node \<Rightarrow> bool" where
  "hasSummary nd = (summary_of nd \<noteq> None)"

text \<open>The \<open>forEach\<close> body of rule 2 of \<open>getMemoriesToArchive\<close>.\<close>

definition push :: "jsstring \<Rightarrow> active_memory \<Rightarrow> candidate list \<Rightarrow> candidate list" where
  "push tag mem acc = (if \<not> listed acc mem then acc @ [(mem, tag)] else acc)"

text \<open>
  The names of a partition, and the invariant of the record store: names are not
  repeated in a partition, and no name is in both.
\<close>

definition names :: "directory \<Rightarrow> jsstring set" where
  "names d = fst ` set d"

definition uniqueNames :: "fs \<Rightarrow> bool" where
  "uniqueNames s = (distinct (map fst (active s)) \<and> distinct (map fst (archive s))
     \<and> names (active s) \<inter> names (archive s) = {})"

text \<open>The element \<open>getActiveMemories\<close> of archive\_old\_memories.js builds for an entry.\<close>

definition toMemory :: "int \<Rightarrow> jsstring \<times> node \<Rightarrow> active_memory" where
  "toMemory now e =
     (let info = getMemoryInfo (summary_of (snd e))
      in \<lparr>name = fst e, path = (Active, fst e), mtime = mtime_of (snd e),
          mem_topic = topicOr info, mem_keywords = keywordsOr info,
          daysSinceModified = real_of_int (now - mtime_of (snd e)) / (1000 * 60 * 60 * 24)\<rparr>)"

text \<open>
  The specification's match of a search keyword against a record, from its words and
  on the documents of the record: the keyword occurs, case-insensitively, in the
  record name, in the topic or in the keyword field that the Metadata Extractor (the
  one of section 4.3, with both label variants, \<open>extractMemoryInfo\<close>) takes from the
  summary document, or in the full text of the full-log document.
\<close>

definition specMatches :: "(jsstring \<Rightarrow> jsstring) \<Rightarrow> jsstring \<Rightarrow> jsstring \<times> node \<Rightarrow> bool" where
  "specMatches toLowerCase keyword record =
     (includes_js (toLowerCase (fst record)) (toLowerCase keyword)
      \<or> (case extractMemoryInfo (summary_of (snd record)) of
            Some info \<Rightarrow>
              includes_js (toLowerCase (topic info)) (toLowerCase keyword)
              \<or> includes_js (toLowerCase (keywordsText info)) (toLowerCase keyword)
          | None \<Rightarrow> False)
      \<or> (case conversation_of (snd record) of
            Some content \<Rightarrow> includes_js (toLowerCase content) (toLowerCase keyword)
          | None \<Rightarrow> False))"

text \<open>
  \<open>toLowerCase\<close> on strings of ASCII characters, where it changes the letters A to Z
  only: an instance of the parameter of \<open>searchMemories\<close> for examples.
\<close>

definition asciiLower :: "jsstring \<Rightarrow> jsstring" where
  "asciiLower s = map (\<lambda>c. if 0x41 \<le> c \<and> c \<le> 0x5A then c + 0x20 else c) s"

text \<open>
  The comparison of two strings by their code units: an instance of the parameter
  \<open>localeCompare\<close> for examples. On record names, which differ in digits only, the
  collations agree with it.
\<close>

fun compareUnits :: "jsstring \<Rightarrow> jsstring \<Rightarrow> int" where
  "compareUnits [] [] = 0"
| "compareUnits [] (y # ys) = - 1"
| "compareUnits (x # xs) [] = 1"
| "compareUnits (x # xs) (y # ys) =
     (if x < y then - 1 else if y < x then 1 else compareUnits xs ys)"

section \<open>Properties\<close>

subsection \<open>Keyword aggregation\<close>

lemma first_seen_snoc:
  "first_seen (xs @ [x]) = (if x \<in> set xs then first_seen xs else first_seen xs @ [x])"
  by (simp add: first_seen_def)

lemma set_first_seen: "set (first_seen xs) = set xs"
  by (simp add: first_seen_def)

lemma fold_set_add: "fold set_add ks [] = first_seen ks"
proof (induction ks rule: rev_induct)
  case Nil
  show ?case by (simp add: first_seen_def)
next
  case (snoc k ks)
  then show ?case by (simp add: first_seen_snoc set_add_def set_first_seen)
qed

lemma fold_addKeyword:
  "fold addKeyword ks acc = fold set_add (filter (\<lambda>k. k \<noteq> [] \<and> k \<notin> set placeholders) ks) acc"
  by (induction ks arbitrary: acc) (simp_all add: addKeyword_def)

lemma split_Nil: "split P [] = [[]]"
  by simp

lemma trim_Nil: "trim [] = []"
  by (simp add: trim_def)

lemma collect_step:
  "(if f \<noteq> [] then fold addKeyword (map trim (split isComma f)) acc else acc)
   = fold set_add (keywordTokens f) acc"
  by (simp add: fold_addKeyword keywordTokens_def trim_Nil)

lemma fold_fold_concat:
  "fold (\<lambda>x. fold f (g x)) xs acc = fold f (concat (map g xs)) acc"
  by (induction xs arbitrary: acc) simp_all

lemma collect_fold:
  "fold (\<lambda>mem keywordSet.
             if keywordsText (snd mem) \<noteq> []
             then fold addKeyword (map trim (split isComma (keywordsText (snd mem)))) keywordSet
             else keywordSet) memories acc
   = fold set_add (concat (map (\<lambda>r. keywordTokens (keywordsText (snd r))) memories)) acc"
  by (simp only: collect_step fold_fold_concat)

text \<open>
  C7. \<open>collectAllKeywords\<close> is the specification's aggregation: split on the ASCII and
  the full-width comma, trim, drop empty and placeholder tokens, unite in first-seen
  order across the records. In particular, when every token of every keyword field is
  a placeholder, the result is empty.
\<close>

theorem collectAllKeywords_first_seen:
  "collectAllKeywords memories = aggregateKeywords memories
   \<and> ((\<forall>mem \<in> set memories. \<forall>k \<in> set (map trim (split isComma (keywordsText (snd mem)))).
          k \<in> set placeholders)
        \<longrightarrow> collectAllKeywords memories = [])"
proof -
  have eq: "collectAllKeywords memories = aggregateKeywords memories"
    by (simp only: collectAllKeywords_def aggregateKeywords_def collect_fold fold_set_add)
  have "aggregateKeywords memories = []"
    if "\<forall>mem \<in> set memories. \<forall>k \<in> set (map trim (split isComma (keywordsText (snd mem)))).
          k \<in> set placeholders"
  proof -
    have "keywordTokens (keywordsText (snd r)) = []" if "r \<in> set memories" for r
      using that \<open>\<forall>mem \<in> set memories. _\<close>
      by (auto simp: keywordTokens_def filter_empty_conv)
    then have "concat (map (\<lambda>r. keywordTokens (keywordsText (snd r))) memories) = []"
      by simp
    then show ?thesis by (simp add: aggregateKeywords_def first_seen_def)
  qed
  with eq show ?thesis by simp
qed

theorem collectAllKeywords_first_seen_witness:
  "collectAllKeywords [(ascii ''mem-20260111-143000'',
        \<lparr>topic = ascii ''X'',
         keywordsText = ascii ''{keyword1}, {keyword2}, '' @ [0x7B, 0x5173, 0x952E, 0x8BCD, 0x33, 0x7D],
         time = []\<rparr>)] = []
   \<and> collectAllKeywords
        [(ascii ''mem-2'', \<lparr>topic = [], keywordsText = ascii ''b, a,, {keyword1}'', time = []\<rparr>),
         (ascii ''mem-1'', \<lparr>topic = [], keywordsText = ascii ''a '' @ [0xFF0C] @ ascii ''c, b'', time = []\<rparr>)]
       = [ascii ''b'', ascii ''a'', ascii ''c'']"
proof -
  let ?r = "[(ascii ''mem-20260111-143000'',
        \<lparr>topic = ascii ''X'',
         keywordsText = ascii ''{keyword1}, {keyword2}, '' @ [0x7B, 0x5173, 0x952E, 0x8BCD, 0x33, 0x7D],
         time = []\<rparr>)]"
  let ?two = "[(ascii ''mem-2'', \<lparr>topic = [], keywordsText = ascii ''b, a,, {keyword1}'', time = []\<rparr>),
         (ascii ''mem-1'', \<lparr>topic = [], keywordsText = ascii ''a '' @ [0xFF0C] @ ascii ''c, b'', time = []\<rparr>)]"
  have h: "\<forall>mem \<in> set ?r.
      \<forall>k \<in> set (map trim (split isComma (keywordsText (snd mem)))). k \<in> set placeholders"
    by (simp add: ascii_def isComma_def trim_def isWhiteSpace_def isLineTerminator_def
        placeholders_def)
  have e: "collectAllKeywords ?r = []"
    using collectAllKeywords_first_seen [of ?r] h by blast
  have "aggregateKeywords ?two = [ascii ''b'', ascii ''a'', ascii ''c'']"
    by (simp add: aggregateKeywords_def keywordTokens_def first_seen_def ascii_def isComma_def
        trim_def isWhiteSpace_def isLineTerminator_def placeholders_def)
  then have t: "collectAllKeywords ?two = [ascii ''b'', ascii ''a'', ascii ''c'']"
    using collectAllKeywords_first_seen [of ?two] by simp
  from e t show ?thesis by blast
qed

subsection \<open>Metadata extraction\<close>

lemmas string_defs = ascii_def startsWith_def isWhiteSpace_def isLineTerminator_def dot_def trim_def

lemmas regex_defs = match1_def exec_def found_def

text \<open>
  C4. The extractor of the Index Builder, \<open>extractMemoryInfo\<close>, knows both label
  variants and the documented defaults; \<open>getMemoryInfo\<close>, the extractor of search,
  list and archival, knows the Chinese labels only. On a summary in the English format
  it finds neither the title nor the keywords, and its default title is not
  \<open>Unknown Topic\<close>.
\<close>

theorem getMemoryInfo_ignores_english_labels:
  "getMemoryInfo (Some (ascii ''# Conversation Memory: API Design\<newline>- **Keywords**: api, rest''))
     = Some \<lparr>info_topic = [0x672A, 0x77E5, 0x4E3B, 0x9898], info_keywords = []\<rparr>
   \<and> extractMemoryInfo (Some (ascii ''# Conversation Memory: API Design\<newline>- **Keywords**: api, rest''))
     = Some \<lparr>topic = ascii ''API Design'', keywordsText = ascii ''api, rest'', time = []\<rparr>
   \<and> getMemoryInfo (Some []) = Some \<lparr>info_topic = [0x672A, 0x77E5, 0x4E3B, 0x9898], info_keywords = []\<rparr>
   \<and> extractMemoryInfo (Some [])
     = Some \<lparr>topic = ascii ''Unknown Topic'', keywordsText = [], time = []\<rparr>"
proof -
  have a: "getMemoryInfo (Some (ascii ''# Conversation Memory: API Design\<newline>- **Keywords**: api, rest''))
     = Some \<lparr>info_topic = [0x672A, 0x77E5, 0x4E3B, 0x9898], info_keywords = []\<rparr>"
    by (simp add: getMemoryInfo_def regex_defs titleZh_def keywordsZh_def string_defs)
  have b: "extractMemoryInfo (Some (ascii ''# Conversation Memory: API Design\<newline>- **Keywords**: api, rest''))
     = Some \<lparr>topic = ascii ''API Design'', keywordsText = ascii ''api, rest'', time = []\<rparr>"
    by (simp add: extractMemoryInfo_def regex_defs titleEn_def keywordsEn_def timeEn_def
        titleZh_def keywordsZh_def timeZh_def string_defs)
  have c: "getMemoryInfo (Some []) = Some \<lparr>info_topic = [0x672A, 0x77E5, 0x4E3B, 0x9898], info_keywords = []\<rparr>"
    by (simp add: getMemoryInfo_def regex_defs titleZh_def keywordsZh_def string_defs)
  have d: "extractMemoryInfo (Some [])
     = Some \<lparr>topic = ascii ''Unknown Topic'', keywordsText = [], time = []\<rparr>"
    by (simp add: extractMemoryInfo_def regex_defs titleEn_def keywordsEn_def timeEn_def
        titleZh_def keywordsZh_def timeZh_def string_defs)
  from a b c d show ?thesis by blast
qed

subsection \<open>Enumeration of records\<close>

lemma mset_insert_by: "mset (insert_by cmp x xs) = add_mset x (mset xs)"
  by (induction xs) simp_all

lemma mset_sort_by: "mset (sort_by cmp xs) = mset xs"
  by (induction xs) (simp_all add: sort_by_def mset_insert_by)

lemma mset_map_sort_by: "mset (map f (sort_by cmp xs)) = mset (map f xs)"
  by (simp add: mset_sort_by)

lemma set_sort_by: "set (sort_by cmp xs) = set xs"
  using mset_sort_by [of cmp xs] by (metis set_mset_mset)

lemma extractMemoryInfo_None: "extractMemoryInfo x = None \<longleftrightarrow> x = None"
  by (simp add: extractMemoryInfo_def split: option.splits)

lemma getMemoryInfo_None: "getMemoryInfo x = None \<longleftrightarrow> x = None"
  by (simp add: getMemoryInfo_def split: option.splits)

lemma index_names:
  "map fst (concat (map (\<lambda>(dir, nd).
                        (case extractMemoryInfo (summary_of nd) of
                           None \<Rightarrow> []
                         | Some info \<Rightarrow> [(dir, info)])) dirs))
   = map fst (filter (\<lambda>(n, nd). hasSummary nd) dirs)"
proof (induction dirs)
  case Nil
  show ?case by simp
next
  case (Cons e es)
  obtain n nd where e: "e = (n, nd)" by (cases e)
  show ?case
    using Cons.IH by (cases "extractMemoryInfo (summary_of nd)")
      (simp_all add: e hasSummary_def extractMemoryInfo_None [symmetric])
qed

lemma getActiveMemories_ids:
  "mset (map fst (getActiveMemories lc d))
   = mset (map fst (filter (\<lambda>(n, nd). startsWith n memPrefix \<and> hasSummary nd) d))"
proof -
  have "mset (map fst (getActiveMemories lc d))
        = mset (map fst (filter (\<lambda>(n, nd). hasSummary nd)
             (filter (\<lambda>(n, nd). startsWith n memPrefix) d)))"
    unfolding getActiveMemories_def Let_def
    by (simp only: mset_map_sort_by index_names)
  also have "filter (\<lambda>(n, nd). hasSummary nd) (filter (\<lambda>(n, nd). startsWith n memPrefix) d)
     = filter (\<lambda>(n, nd). startsWith n memPrefix \<and> hasSummary nd) d"
    by (induction d) auto
  finally show ?thesis .
qed

lemma getActiveMemories_archive_names:
  "mset (map name (getActiveMemories_archive now s))
   = mset (filter (\<lambda>n. startsWith n memPrefix) (readdirSync (active s)))"
proof -
  have "map name (map (\<lambda>(n, nd).
               (let info = getMemoryInfo (summary_of nd)
                in \<lparr>name = n, path = (Active, n), mtime = mtime_of nd,
                    mem_topic = topicOr info, mem_keywords = keywordsOr info,
                    daysSinceModified = real_of_int (now - mtime_of nd) / (1000 * 60 * 60 * 24)\<rparr>)) es)
        = map fst es" for es
    by (induction es) (auto simp: Let_def)
  moreover have "map fst (filter (\<lambda>(n, nd). startsWith n memPrefix) d)
        = filter (\<lambda>n. startsWith n memPrefix) (map fst d)" for d :: directory
    by (induction d) auto
  ultimately show ?thesis
    unfolding getActiveMemories_archive_def readdirSync_def
    by (simp only: mset_map_sort_by)
qed

lemma getMemories_names:
  "mset (map name (getMemories p s))
   = mset (filter (\<lambda>n. startsWith n memPrefix) (readdirSync (partitionDir s p)))"
proof -
  have "map name (map (\<lambda>(n, nd).
               (let info = getMemoryInfo (summary_of nd)
                in \<lparr>name = n, path = (p, n), mtime = mtime_of nd,
                    mem_topic = topicOr info, mem_keywords = keywordsOr info\<rparr>)) es)
        = map fst es" for es
    by (induction es) (auto simp: Let_def)
  moreover have "map fst (filter (\<lambda>(n, nd). startsWith n memPrefix) d)
        = filter (\<lambda>n. startsWith n memPrefix) (map fst d)" for d :: directory
    by (induction d) auto
  ultimately show ?thesis
    unfolding getMemories_def readdirSync_def
    by (simp only: mset_map_sort_by)
qed

text \<open>
  C8, as amended. Every enumeration returns, once each, exactly the entries of the
  partition (directories or files) whose names start with \<open>mem-\<close>; the Index Builder
  keeps those of them that hold a summary document. No enumeration compares a name
  with the full pattern of record names.
\<close>

theorem enumeration_by_prefix:
  "mset (map name (getActiveMemories_archive now s))
     = mset (filter (\<lambda>n. startsWith n memPrefix) (readdirSync (active s)))
   \<and> mset (map name (getMemories p s))
     = mset (filter (\<lambda>n. startsWith n memPrefix) (readdirSync (partitionDir s p)))
   \<and> mset (map fst (getActiveMemories localeCompare d))
     = mset (map fst (filter (\<lambda>(n, nd). startsWith n memPrefix \<and> hasSummary nd) d))"
  using getActiveMemories_archive_names getMemories_names getActiveMemories_ids by blast

theorem enumeration_by_prefix_witness:
  "mset (map name (getActiveMemories_archive 0
       \<lparr>active = [(ascii ''mem-notes'', Dir 0 None None), (ascii ''tmp'', Dir 0 None None),
                  (ascii ''mem-20260111-143000'', File 0)],
        archive = [], indexFile = None, skillFile = None\<rparr>))
     = {#ascii ''mem-notes'', ascii ''mem-20260111-143000''#}
   \<and> mset (map fst (getActiveMemories compareUnits
       [(ascii ''mem-notes'', Dir 0 (Some []) None), (ascii ''tmp'', Dir 0 (Some []) None),
        (ascii ''mem-20260111-143000'', Dir 0 None None)]))
     = {#ascii ''mem-notes''#}"
  using enumeration_by_prefix [of 0 "\<lparr>active = [(ascii ''mem-notes'', Dir 0 None None), (ascii ''tmp'', Dir 0 None None),
                  (ascii ''mem-20260111-143000'', File 0)],
        archive = [], indexFile = None, skillFile = None\<rparr>" Active compareUnits
        "[(ascii ''mem-notes'', Dir 0 (Some []) None), (ascii ''tmp'', Dir 0 (Some []) None),
        (ascii ''mem-20260111-143000'', Dir 0 None None)]"]
  by (simp add: readdirSync_def memPrefix_def hasSummary_def string_defs)

text \<open>
  C8, as stated, fails: a directory \<open>mem-notes\<close>, whose name does not match the pattern
  of record names, is enumerated by the archival script and by the Index Builder.
\<close>

theorem enumeration_ignores_pattern:
  "map name (getActiveMemories_archive 0
       \<lparr>active = [(ascii ''mem-notes'', Dir 0 None None)],
        archive = [], indexFile = None, skillFile = None\<rparr>) = [ascii ''mem-notes'']
   \<and> map fst (getActiveMemories compareUnits [(ascii ''mem-notes'', Dir 0 (Some []) None)])
       = [ascii ''mem-notes'']
   \<and> \<not> isStandardName (ascii ''mem-notes'')"
  by (simp add: getActiveMemories_archive_def getActiveMemories_def sort_by_def memPrefix_def
      isStandardName_def extractMemoryInfo_def Let_def string_defs)

subsection \<open>The Index Builder\<close>

lemma main_partitions: "active (main lc s) = active s \<and> archive (main lc s) = archive s"
  by (simp add: main_def updateSkillFile_def updateIndexFile_def ensureDataDir_def Let_def
      split: option.splits)

lemma main_indexFile:
  "indexFile (main lc s)
   = Some (indexContent (generateIndexTable (getActiveMemories lc (active s)))
        (if length (collectAllKeywords (getActiveMemories lc (active s))) > 0
         then join (ascii '', '') (collectAllKeywords (getActiveMemories lc (active s)))
         else ascii ''(No valid keywords yet)''))"
  by (simp add: main_def updateSkillFile_def updateIndexFile_def ensureDataDir_def Let_def
      split: option.splits)

lemma main_skillFile:
  "skillFile (main lc s)
   = (case skillFile s of
        None \<Rightarrow> None
      | Some content \<Rightarrow>
          Some (replace skillZh
                 (ascii ''Active memory keywords: '' @ descriptionKeywords (getActiveMemories lc (active s)))
                 (replace skillEn
                   (ascii ''Active memory keywords: '' @ descriptionKeywords (getActiveMemories lc (active s)))
                   content)))"
  by (simp add: main_def updateSkillFile_def updateIndexFile_def ensureDataDir_def Let_def
      split: option.splits)

lemma concat_map_filter_skip:
  "(\<And>e. e \<in> set xs \<Longrightarrow> \<not> Q e \<Longrightarrow> g e = []) \<Longrightarrow> concat (map g (filter Q xs)) = concat (map g xs)"
  by (induction xs) auto

lemma getActiveMemories_removeEntry:
  assumes "distinct (map fst d)" "(n, nd) \<in> set d" "summary_of nd = None"
  shows "getActiveMemories lc (removeEntry n d) = getActiveMemories lc d"
proof -
  let ?g = "\<lambda>(dir, nd). (case extractMemoryInfo (summary_of nd) of
                           None \<Rightarrow> [] | Some info \<Rightarrow> [(dir, info)])"
  let ?P = "\<lambda>(name, nd). startsWith name memPrefix"
  let ?Q = "\<lambda>(k, nd :: node). k \<noteq> n"
  have only: "x = nd" if "(n, x) \<in> set d" for x
    using assms(1,2) that by (meson eq_key_imp_eq_value)
  have "filter ?P (removeEntry n d) = filter ?Q (filter ?P d)"
    unfolding removeEntry_def by (induction d) auto
  moreover have "concat (map ?g (filter ?Q (filter ?P d))) = concat (map ?g (filter ?P d))"
  proof (rule concat_map_filter_skip)
    fix e assume e: "e \<in> set (filter ?P d)" "\<not> ?Q e"
    obtain k x where kx: "e = (k, x)" by (cases e)
    with e have "k = n" "(n, x) \<in> set d" by auto
    with only have "x = nd" by simp
    with kx assms(3) show "?g e = []" by (simp add: extractMemoryInfo_def)
  qed
  ultimately show ?thesis
    by (simp add: getActiveMemories_def Let_def)
qed

lemma getActiveMemories_no_id:
  assumes "distinct (map fst d)" "(n, nd) \<in> set d" "summary_of nd = None"
  shows "n \<notin> set (map fst (getActiveMemories lc d))"
proof
  assume "n \<in> set (map fst (getActiveMemories lc d))"
  then have "n \<in># mset (map fst (getActiveMemories lc d))" by simp
  then have "n \<in> set (map fst (filter (\<lambda>(n, nd). startsWith n memPrefix \<and> hasSummary nd) d))"
    by (simp only: getActiveMemories_ids set_mset_mset)
  then obtain x where x: "(n, x) \<in> set d" "hasSummary x" by auto
  with assms(1,2) have "x = nd" by (meson eq_key_imp_eq_value)
  with x assms(3) show False by (simp add: hasSummary_def)
qed

text \<open>
  C10. An active record directory without summary document yields no entry of the list
  from which the index table and the keywords are computed: the Index Builder writes
  the index and the skill description it would write if the directory were not there,
  without failing, and leaves the active partition as it is.
\<close>

theorem missing_summary_omitted:
  assumes "distinct (map fst (active s))" and "(n, nd) \<in> set (active s)"
    and "summary_of nd = None"
  shows "n \<notin> set (map fst (getActiveMemories lc (active s)))
    \<and> getActiveMemories lc (active s) = getActiveMemories lc (removeEntry n (active s))
    \<and> indexFile (main lc s) = indexFile (main lc (s\<lparr>active := removeEntry n (active s)\<rparr>))
    \<and> skillFile (main lc s) = skillFile (main lc (s\<lparr>active := removeEntry n (active s)\<rparr>))
    \<and> active (main lc s) = active s"
proof -
  have eq: "getActiveMemories lc (removeEntry n (active s)) = getActiveMemories lc (active s)"
    using assms by (rule getActiveMemories_removeEntry)
  have "n \<notin> set (map fst (getActiveMemories lc (active s)))"
    using assms by (rule getActiveMemories_no_id)
  moreover have "indexFile (main lc s) = indexFile (main lc (s\<lparr>active := removeEntry n (active s)\<rparr>))"
    by (simp add: main_indexFile eq)
  moreover have "skillFile (main lc s) = skillFile (main lc (s\<lparr>active := removeEntry n (active s)\<rparr>))"
    by (simp add: main_skillFile eq cong: option.case_cong)
  ultimately show ?thesis using eq main_partitions [of lc s] by simp
qed

theorem missing_summary_omitted_witness:
  "ascii ''mem-1'' \<notin> set (map fst (getActiveMemories compareUnits (active
          \<lparr>active = [(ascii ''mem-1'', Dir 5 None (Some (ascii ''hi''))),
                     (ascii ''mem-2'', Dir 6 (Some (ascii ''**Keywords**: a'')) None)],
           archive = [], indexFile = None,
           skillFile = Some (ascii ''Active memory keywords: x'')\<rparr>)))
   \<and> indexFile (main compareUnits
          \<lparr>active = [(ascii ''mem-1'', Dir 5 None (Some (ascii ''hi''))),
                     (ascii ''mem-2'', Dir 6 (Some (ascii ''**Keywords**: a'')) None)],
           archive = [], indexFile = None,
           skillFile = Some (ascii ''Active memory keywords: x'')\<rparr>)
     = indexFile (main compareUnits
          \<lparr>active = [(ascii ''mem-2'', Dir 6 (Some (ascii ''**Keywords**: a'')) None)],
           archive = [], indexFile = None,
           skillFile = Some (ascii ''Active memory keywords: x'')\<rparr>)
   \<and> active (main compareUnits
          \<lparr>active = [(ascii ''mem-1'', Dir 5 None (Some (ascii ''hi''))),
                     (ascii ''mem-2'', Dir 6 (Some (ascii ''**Keywords**: a'')) None)],
           archive = [], indexFile = None,
           skillFile = Some (ascii ''Active memory keywords: x'')\<rparr>)
     = [(ascii ''mem-1'', Dir 5 None (Some (ascii ''hi''))),
        (ascii ''mem-2'', Dir 6 (Some (ascii ''**Keywords**: a'')) None)]"
proof -
  let ?s = "\<lparr>active = [(ascii ''mem-1'', Dir 5 None (Some (ascii ''hi''))),
                     (ascii ''mem-2'', Dir 6 (Some (ascii ''**Keywords**: a'')) None)],
           archive = [], indexFile = None,
           skillFile = Some (ascii ''Active memory keywords: x'')\<rparr>"
  have d: "distinct (map fst (active ?s))"
    by (simp add: ascii_def)
  have m: "(ascii ''mem-1'', Dir 5 None (Some (ascii ''hi''))) \<in> set (active ?s)"
    by simp
  have r: "?s\<lparr>active := removeEntry (ascii ''mem-1'') (active ?s)\<rparr>
      = \<lparr>active = [(ascii ''mem-2'', Dir 6 (Some (ascii ''**Keywords**: a'')) None)],
           archive = [], indexFile = None,
           skillFile = Some (ascii ''Active memory keywords: x'')\<rparr>"
    by (simp add: removeEntry_def ascii_def)
  have n: "summary_of (Dir 5 None (Some (ascii ''hi''))) = None"
    by simp
  note t = missing_summary_omitted [OF d m n, of compareUnits]
  from t have c1: "ascii ''mem-1'' \<notin> set (map fst (getActiveMemories compareUnits (active ?s)))"
    by (rule conjunct1)
  from t have "indexFile (main compareUnits ?s)
      = indexFile (main compareUnits (?s\<lparr>active := removeEntry (ascii ''mem-1'') (active ?s)\<rparr>))"
    by blast
  then have c2: "indexFile (main compareUnits ?s)
      = indexFile (main compareUnits
          \<lparr>active = [(ascii ''mem-2'', Dir 6 (Some (ascii ''**Keywords**: a'')) None)],
           archive = [], indexFile = None,
           skillFile = Some (ascii ''Active memory keywords: x'')\<rparr>)"
    by (simp only: r)
  from t have "active (main compareUnits ?s) = active ?s"
    by blast
  then have c3: "active (main compareUnits ?s)
      = [(ascii ''mem-1'', Dir 5 None (Some (ascii ''hi''))),
         (ascii ''mem-2'', Dir 6 (Some (ascii ''**Keywords**: a'')) None)]"
    by simp
  from c1 c2 c3 show ?thesis by blast
qed

subsection \<open>The archival policy\<close>

lemma insert_by_key:
  fixes f :: "'a \<Rightarrow> int"
  shows "insert_by (\<lambda>a b. f a - f b) x xs = insort_key f x xs"
  by (induction xs) simp_all

lemma sort_by_key:
  fixes f :: "'a \<Rightarrow> int"
  shows "sort_by (\<lambda>a b. f a - f b) xs = sort_key f xs"
  by (induction xs) (simp_all add: sort_by_def insert_by_key)

lemma listed_iff: "listed acc m \<longleftrightarrow> name m \<in> (\<lambda>a. name (fst a)) ` set acc"
  unfolding listed_def find_None_iff by (force simp: image_iff)

lemma name_inj:
  "distinct (map name ms) \<Longrightarrow> a \<in> set ms \<Longrightarrow> m \<in> set ms \<Longrightarrow> name a = name m \<Longrightarrow> a = m"
  by (simp add: distinct_map inj_on_def)

lemma fold_push_fresh:
  "distinct (map name ms) \<Longrightarrow> (\<forall>m \<in> set ms. \<not> listed acc m)
   \<Longrightarrow> fold (push tag) ms acc = acc @ map (\<lambda>m. (m, tag)) ms"
proof (induction ms arbitrary: acc)
  case Nil
  show ?case by simp
next
  case (Cons m ms)
  have "\<not> listed (acc @ [(m, tag)]) x" if "x \<in> set ms" for x
  proof -
    from Cons.prems(1) that have "name x \<noteq> name m" by (auto simp: image_iff)
    moreover from Cons.prems(2) that have "\<not> listed acc x" by simp
    ultimately show ?thesis by (simp add: listed_iff image_iff)
  qed
  then have "fold (push tag) ms (acc @ [(m, tag)]) = (acc @ [(m, tag)]) @ map (\<lambda>m. (m, tag)) ms"
    using Cons.IH [of "acc @ [(m, tag)]"] Cons.prems(1) by simp
  moreover have "push tag m acc = acc @ [(m, tag)]"
    using Cons.prems(2) by (simp add: push_def)
  ultimately show ?case by simp
qed

lemma aged_candidates:
  "concat (map (\<lambda>mem. if P mem then [(mem, r)] else []) ms) = map (\<lambda>m. (m, r)) (filter P ms)"
  by (induction ms) simp_all

lemma listed_aged:
  assumes "distinct (map name ms)" "m \<in> set ms"
  shows "listed (map (\<lambda>m. (m, r)) (filter P ms)) m \<longleftrightarrow> P m"
proof
  assume "listed (map (\<lambda>m. (m, r)) (filter P ms)) m"
  then obtain a where a: "a \<in> set ms" "P a" "name a = name m"
    by (auto simp: listed_iff image_iff)
  with assms have "a = m" by (blast intro: name_inj)
  with a show "P m" by simp
next
  assume "P m"
  with assms(2) show "listed (map (\<lambda>m. (m, r)) (filter P ms)) m"
    by (force simp: listed_iff image_iff)
qed

lemma remaining_eq:
  assumes "distinct (map name ms)"
  shows "filter (\<lambda>m. \<not> listed (map (\<lambda>m. (m, r)) (filter P ms)) m) ms = filter (\<lambda>m. \<not> P m) ms"
  by (rule filter_cong [OF refl]) (simp add: listed_aged [OF assms])


lemma candidates_from:
  assumes "distinct (map name ms)"
  shows "getMemoriesToArchive_from cfg force ms
    = map (\<lambda>m. (m, reasonAge cfg)) (filter (\<lambda>m. daysSinceModified m > real (archiveAfterDays cfg)) ms)
      @ (if force
         then map (\<lambda>m. (m, reasonForced))
                (take 1 (filter (\<lambda>m. \<not> daysSinceModified m > real (archiveAfterDays cfg)) ms))
         else map (\<lambda>m. (m, reasonCapacity cfg))
                (take (length (filter (\<lambda>m. \<not> daysSinceModified m > real (archiveAfterDays cfg)) ms)
                       - maxActiveMemories cfg)
                   (filter (\<lambda>m. \<not> daysSinceModified m > real (archiveAfterDays cfg)) ms)))"
proof -
  let ?old = "\<lambda>m. daysSinceModified m > real (archiveAfterDays cfg)"
  let ?aged = "map (\<lambda>m. (m, reasonAge cfg)) (filter ?old ms)"
  let ?rem = "filter (\<lambda>m. \<not> ?old m) ms"
  have fresh: "\<forall>m \<in> set (take k ?rem). \<not> listed ?aged m" for k
  proof
    fix m assume "m \<in> set (take k ?rem)"
    then have m: "m \<in> set ms" "\<not> ?old m" by (auto dest: in_set_takeD)
    then show "\<not> listed ?aged m" by (simp add: listed_aged [OF assms])
  qed
  have "distinct (map name ?rem)"
    using assms by (rule distinct_map_filter)
  then have dist: "distinct (map name (take k ?rem))" for k
    by (simp only: take_map [symmetric] distinct_take)
  have pushes: "fold (\<lambda>mem acc. if \<not> listed acc mem then acc @ [(mem, tag)] else acc)
                  (take k ?rem) ?aged = ?aged @ map (\<lambda>m. (m, tag)) (take k ?rem)" for k tag
    using fold_push_fresh [OF dist [of k] fresh [of k], of tag] by (simp add: push_def [abs_def])
  have unf: "getMemoriesToArchive_from cfg force ms
    = (if length ?rem > maxActiveMemories cfg \<or> force
         then (if int (length ?rem) - int (maxActiveMemories cfg) > 0 \<or> force
               then fold (\<lambda>mem acc. if \<not> listed acc mem
                                   then acc @ [(mem, if force then reasonForced else reasonCapacity cfg)]
                                   else acc)
                      (take (nat (if force then 1 else int (length ?rem) - int (maxActiveMemories cfg))) ?rem)
                      ?aged
               else ?aged)
         else ?aged)"
    unfolding getMemoriesToArchive_from_def aged_candidates remaining_eq [OF assms] Let_def ..
  show ?thesis
  proof (cases force)
    case True
    then show ?thesis unfolding unf by (simp add: pushes)
  next
    case False
    show ?thesis
    proof (cases "length ?rem > maxActiveMemories cfg")
      case True
      then have "nat (int (length ?rem) - int (maxActiveMemories cfg)) = length ?rem - maxActiveMemories cfg"
        by simp
      with True False show ?thesis unfolding unf by (simp add: pushes)
    next
      case le: False
      with False show ?thesis unfolding unf by simp
    qed
  qed
qed

lemma existsSync_names: "existsSync d n \<longleftrightarrow> n \<in> names d"
  by (simp add: existsSync_def names_def map_of_eq_None_iff)

lemma names_removeEntry: "names (removeEntry n d) = names d - {n}"
  by (auto simp: names_def removeEntry_def image_iff)

lemma removeEntry_absent: "n \<notin> names d \<Longrightarrow> removeEntry n d = d"
  unfolding removeEntry_def names_def by (induction d) auto

lemma distinct_removeEntry: "distinct (map fst d) \<Longrightarrow> distinct (map fst (removeEntry n d))"
  unfolding removeEntry_def by (rule distinct_map_filter)

lemma names_snoc: "names (d @ [(n, nd)]) = insert n (names d)"
  by (simp add: names_def)

lemma ensureDataDir_partitions [simp]:
  "active (ensureDataDir s) = active s" "archive (ensureDataDir s) = archive s"
  "skillFile (ensureDataDir s) = skillFile s"
  by (simp_all add: ensureDataDir_def)

lemma uniqueNames_ensureDataDir [simp]: "uniqueNames (ensureDataDir s) = uniqueNames s"
  by (simp add: uniqueNames_def)

lemma uniqueNames_main [simp]: "uniqueNames (main lc s) = uniqueNames s"
  by (simp add: uniqueNames_def main_partitions)

text \<open>A relocation between the partitions when the name is free at the target.\<close>

lemma renameSync_to_archive:
  assumes "map_of (active s) n = Some nd" "n \<notin> names (archive s)"
  shows "renameSync (Active, n) (Archive, n) s
     = Inr (s\<lparr>active := removeEntry n (active s), archive := archive s @ [(n, nd)]\<rparr>)"
proof -
  have "map_of (archive s) n = None"
    using assms(2) by (simp add: names_def map_of_eq_None_iff)
  with assms show ?thesis
    by (simp add: renameSync_def moveEntry_def removeEntry_absent)
qed

lemma renameSync_to_active:
  assumes "map_of (archive s) n = Some nd" "n \<notin> names (active s)"
  shows "renameSync (Archive, n) (Active, n) s
     = Inr (s\<lparr>archive := removeEntry n (archive s), active := active s @ [(n, nd)]\<rparr>)"
proof -
  have "map_of (active s) n = None"
    using assms(2) by (simp add: names_def map_of_eq_None_iff)
  with assms show ?thesis
    by (simp add: renameSync_def moveEntry_def removeEntry_absent)
qed

lemma uniqueNames_to_archive:
  assumes "uniqueNames s" "n \<in> names (active s)"
  shows "uniqueNames (s\<lparr>active := removeEntry n (active s), archive := archive s @ [(n, nd)]\<rparr>)"
  using assms
  by (auto simp: uniqueNames_def distinct_removeEntry names_removeEntry names_snoc
      simp flip: names_def)

lemma uniqueNames_to_active:
  assumes "uniqueNames s" "n \<in> names (archive s)"
  shows "uniqueNames (s\<lparr>archive := removeEntry n (archive s), active := active s @ [(n, nd)]\<rparr>)"
  using assms
  by (auto simp: uniqueNames_def distinct_removeEntry names_removeEntry names_snoc
      simp flip: names_def)

lemma in_names_map_of: "n \<in> names d \<Longrightarrow> \<exists>nd. map_of d n = Some nd"
  by (metis existsSync_names existsSync_def not_None_eq)

lemma archiveMemory_ok:
  assumes "uniqueNames s" "name m \<in> names (active s)" "path m = (Active, name m)"
  shows "\<exists>s'. archiveMemory m s = Inr s' \<and> uniqueNames s'
     \<and> names (active s') = names (active s) - {name m}
     \<and> names (archive s') = insert (name m) (names (archive s))"
proof -
  obtain nd where nd: "map_of (active s) (name m) = Some nd"
    using assms(2) in_names_map_of by blast
  have free: "name m \<notin> names (archive s)"
    using assms(1,2) by (auto simp: uniqueNames_def)
  let ?s1 = "ensureDataDir s"
  have "archiveMemory m s
     = Inr (?s1\<lparr>active := removeEntry (name m) (active ?s1), archive := archive ?s1 @ [(name m, nd)]\<rparr>)"
    unfolding archiveMemory_def assms(3)
    by (rule renameSync_to_archive) (simp_all add: nd free)
  moreover have "uniqueNames (?s1\<lparr>active := removeEntry (name m) (active ?s1),
      archive := archive ?s1 @ [(name m, nd)]\<rparr>)"
    by (rule uniqueNames_to_archive) (simp_all add: assms)
  ultimately show ?thesis
    by (simp add: names_removeEntry names_snoc)
qed

lemma archiveAll_ok:
  assumes "uniqueNames s" "distinct (map (\<lambda>c. name (fst c)) cs)"
    and "\<forall>c \<in> set cs. name (fst c) \<in> names (active s) \<and> path (fst c) = (Active, name (fst c))"
  shows "\<exists>s'. archiveAll cs s = Inr s' \<and> uniqueNames s'
     \<and> names (active s') = names (active s) - (\<lambda>c. name (fst c)) ` set cs
     \<and> names (archive s') = names (archive s) \<union> (\<lambda>c. name (fst c)) ` set cs"
  using assms
proof (induction cs arbitrary: s)
  case Nil
  then show ?case by simp
next
  case (Cons c cs)
  from Cons.prems obtain s1 where s1: "archiveMemory (fst c) s = Inr s1" "uniqueNames s1"
    "names (active s1) = names (active s) - {name (fst c)}"
    "names (archive s1) = insert (name (fst c)) (names (archive s))"
    using archiveMemory_ok [of s "fst c"] by auto
  have "\<forall>x \<in> set cs. name (fst x) \<in> names (active s1) \<and> path (fst x) = (Active, name (fst x))"
    using Cons.prems(2,3) s1(3) by (auto simp: image_iff)
  with Cons.IH [of s1] s1(2) Cons.prems(2)
  obtain s' where "archiveAll cs s1 = Inr s'" "uniqueNames s'"
    "names (active s') = names (active s1) - (\<lambda>c. name (fst c)) ` set cs"
    "names (archive s') = names (archive s1) \<union> (\<lambda>c. name (fst c)) ` set cs"
    by auto
  with s1 show ?case by auto
qed

lemma toMemory_simps [simp]:
  "name (toMemory now e) = fst e" "path (toMemory now e) = (Active, fst e)"
  "mtime (toMemory now e) = mtime_of (snd e)"
  "daysSinceModified (toMemory now e) = real_of_int (now - mtime_of (snd e)) / 86400000"
  by (simp_all add: toMemory_def Let_def)

lemma getActiveMemories_archive_eq:
  "getActiveMemories_archive now s
   = sort_key mtime (map (toMemory now) (filter (\<lambda>(n, nd). startsWith n memPrefix) (active s)))"
proof -
  have "(\<lambda>(n, nd). (let info = getMemoryInfo (summary_of nd)
                in \<lparr>name = n, path = (Active, n), mtime = mtime_of nd,
                    mem_topic = topicOr info, mem_keywords = keywordsOr info,
                    daysSinceModified = real_of_int (now - mtime_of nd) / (1000 * 60 * 60 * 24)\<rparr>))
        = toMemory now"
    by (auto simp: toMemory_def fun_eq_iff)
  then show ?thesis
    by (simp add: getActiveMemories_archive_def sort_by_key)
qed

lemma listing_sorted: "sorted (map mtime (getActiveMemories_archive now s))"
  by (simp add: getActiveMemories_archive_eq)

lemma listing_members:
  "m \<in> set (getActiveMemories_archive now s)
   \<Longrightarrow> name m \<in> names (active s) \<and> path m = (Active, name m)"
  by (force simp: getActiveMemories_archive_eq names_def image_iff)

lemma listing_distinct:
  assumes "distinct (map fst (active s))"
  shows "distinct (map name (getActiveMemories_archive now s))"
proof -
  have "distinct (map fst (filter (\<lambda>(n, nd). startsWith n memPrefix) (active s)))"
    using assms by (rule distinct_map_filter)
  then have "distinct (map name (map (toMemory now) (filter (\<lambda>(n, nd). startsWith n memPrefix) (active s))))"
    by (simp add: comp_def)
  then show ?thesis
    unfolding getActiveMemories_archive_eq
    by (metis distinct_map distinct_sort set_sort)
qed

lemma candidates_distinct:
  assumes "distinct (map name ms)"
  shows "distinct (map name (filter P ms @ take k (filter (\<lambda>m. \<not> P m) ms)))"
proof -
  have inj: "inj_on name (set ms)" and d: "distinct ms"
    using assms by (simp_all add: distinct_map)
  have "distinct (filter P ms @ take k (filter (\<lambda>m. \<not> P m) ms))"
    using d by (auto dest: in_set_takeD)
  moreover have "set (filter P ms @ take k (filter (\<lambda>m. \<not> P m) ms)) \<subseteq> set ms"
    by (auto dest: in_set_takeD)
  ultimately show ?thesis
    using inj by (simp only: distinct_map) (blast intro: inj_on_subset)
qed

lemma candidates_ok:
  assumes "distinct (map fst (active s))"
  shows "distinct (map (\<lambda>c. name (fst c)) (getMemoriesToArchive cfg now force s))
    \<and> (\<forall>c \<in> set (getMemoriesToArchive cfg now force s).
          name (fst c) \<in> names (active s) \<and> path (fst c) = (Active, name (fst c)))"
proof -
  let ?ms = "getActiveMemories_archive now s"
  let ?P = "\<lambda>m. daysSinceModified m > real (archiveAfterDays cfg)"
  note d = listing_distinct [OF assms, of now]
  have fst_of: "map fst (getMemoriesToArchive cfg now force s)
      = filter ?P ?ms @ take (if force then 1 else length (filter (\<lambda>m. \<not> ?P m) ?ms) - maxActiveMemories cfg)
                           (filter (\<lambda>m. \<not> ?P m) ?ms)"
    unfolding getMemoriesToArchive_def candidates_from [OF d] by (simp add: comp_def)
  have "map (\<lambda>c. name (fst c)) (getMemoriesToArchive cfg now force s)
      = map name (map fst (getMemoriesToArchive cfg now force s))"
    by (simp add: comp_def)
  then have "distinct (map (\<lambda>c. name (fst c)) (getMemoriesToArchive cfg now force s))"
    unfolding fst_of using candidates_distinct [OF d] by simp
  moreover have "fst c \<in> set ?ms" if "c \<in> set (getMemoriesToArchive cfg now force s)" for c
  proof -
    from that have "fst c \<in> set (map fst (getMemoriesToArchive cfg now force s))" by simp
    then show ?thesis unfolding fst_of by (auto dest: in_set_takeD)
  qed
  ultimately show ?thesis using listing_members by blast
qed

lemma runArchive_ok:
  assumes "uniqueNames s"
  shows "\<exists>s'. runArchive lc cfg now dryRun force s = Inr s' \<and> uniqueNames s'"
proof -
  have d: "distinct (map fst (active s))" using assms by (simp add: uniqueNames_def)
  from archiveAll_ok [OF assms] candidates_ok [OF d, of cfg now force]
  obtain s1 where "archiveAll (getMemoriesToArchive cfg now force s) s = Inr s1" "uniqueNames s1"
    by blast
  with assms show ?thesis by (simp add: runArchive_def Let_def)
qed

lemma createMemory_duplicate:
  "n \<in> names (active s) \<Longrightarrow> createMemory n now s = Inl DuplicateRecord"
  by (simp add: createMemory_def existsSync_names Let_def)

lemma uniqueNames_create:
  assumes "uniqueNames s" "n \<notin> names (active s)" "n \<notin> names (archive s)"
  shows "uniqueNames (s\<lparr>active := active s @ [(n, nd)]\<rparr>)"
proof -
  have "n \<notin> fst ` set (active s)" using assms(2) by (simp add: names_def)
  with assms show ?thesis
    by (auto simp: uniqueNames_def names_snoc)
qed

lemma createMemory_unique:
  assumes "uniqueNames s" "createMemory n now s = Inr s'" "n \<notin> names (archive s)"
  shows "uniqueNames s'"
proof -
  let ?s1 = "ensureDataDir s"
  have free: "n \<notin> names (active s)"
    using assms(2) by (auto simp: createMemory_def existsSync_names Let_def split: if_splits)
  then have "s' = ?s1\<lparr>active := active ?s1 @
      [(n, Dir (getTime now) (Some (generateSummaryTemplate now))
                 (Some (generateConversationTemplate now)))]\<rparr>"
    using assms(2) by (simp add: createMemory_def existsSync_names Let_def)
  moreover have "uniqueNames (?s1\<lparr>active := active ?s1 @
      [(n, Dir (getTime now) (Some (generateSummaryTemplate now))
                 (Some (generateConversationTemplate now)))]\<rparr>)"
    by (rule uniqueNames_create) (simp_all add: assms free)
  ultimately show ?thesis by simp
qed

lemma activateMemory_unique:
  assumes "uniqueNames s"
  shows "uniqueNames (snd (activateMemory lc n s))"
proof (cases "n \<in> names (archive s)")
  case False
  then show ?thesis using assms by (simp add: activateMemory_def existsSync_names Let_def)
next
  case True
  then obtain nd where nd: "map_of (archive s) n = Some nd"
    using in_names_map_of by blast
  have free: "n \<notin> names (active s)" using assms True by (auto simp: uniqueNames_def)
  let ?s1 = "ensureDataDir s"
  have r: "renameSync (Archive, n) (Active, n) ?s1
     = Inr (?s1\<lparr>archive := removeEntry n (archive ?s1), active := active ?s1 @ [(n, nd)]\<rparr>)"
    by (rule renameSync_to_active) (simp_all add: nd free)
  have "uniqueNames (?s1\<lparr>archive := removeEntry n (archive ?s1), active := active ?s1 @ [(n, nd)]\<rparr>)"
    by (rule uniqueNames_to_active) (simp_all add: assms True)
  with True r show ?thesis
    by (simp add: activateMemory_def existsSync_names Let_def)
qed

lemma sorted3:
  fixes f :: "'a \<Rightarrow> int"
  assumes "mset ys = {#a, b, c#}" "sorted (map f ys)" "f a < f b" "f b < f c"
  shows "ys = [a, b, c]"
proof -
  have "mset (map f ys) = mset [f a, f b, f c]"
    by (simp add: assms(1))
  then have "sort [f a, f b, f c] = map f ys"
    using assms(2) by (intro properties_for_sort) simp_all
  moreover have "sort [f a, f b, f c] = [f a, f b, f c]"
    using assms(3,4) by (intro sorted_sort_id) simp
  ultimately have fs: "map f ys = [f a, f b, f c]" by simp
  then obtain y1 y2 y3 where ys: "ys = [y1, y2, y3]"
    and f: "f y1 = f a" "f y2 = f b" "f y3 = f c"
    by (auto simp: map_eq_Cons_conv)
  have "set_mset (mset ys) = set_mset {#a, b, c#}"
    by (simp only: assms(1))
  then have "set ys = {a, b, c}"
    by simp
  then have mem: "y \<in> set ys \<Longrightarrow> y = a \<or> y = b \<or> y = c" for y
    by simp
  have key: "(f y = f a \<longrightarrow> y = a) \<and> (f y = f b \<longrightarrow> y = b) \<and> (f y = f c \<longrightarrow> y = c)"
    if "y \<in> set ys" for y
    using mem [OF that] assms(3,4) by (elim disjE) simp_all
  have "y1 = a" "y2 = b" "y3 = c"
    using key [of y1] key [of y2] key [of y3] f by (simp_all add: ys)
  with ys show ?thesis by simp
qed

lemma three_listing:
  assumes "mset (active s) = {#e1, e2, e3#}"
    and "startsWith (fst e1) memPrefix" "startsWith (fst e2) memPrefix" "startsWith (fst e3) memPrefix"
    and "mtime_of (snd e1) < mtime_of (snd e2)" "mtime_of (snd e2) < mtime_of (snd e3)"
  shows "getActiveMemories_archive now s = [toMemory now e1, toMemory now e2, toMemory now e3]"
proof -
  have "set_mset (mset (active s)) = set_mset {#e1, e2, e3#}"
    by (simp only: assms(1))
  then have set: "set (active s) = {e1, e2, e3}"
    by simp
  have "filter (\<lambda>(n, nd). startsWith n memPrefix) (active s) = active s"
    using assms(2-4) by (auto simp: filter_id_conv set)
  then have eq: "getActiveMemories_archive now s = sort_key mtime (map (toMemory now) (active s))"
    by (simp add: getActiveMemories_archive_eq)
  have "mset (getActiveMemories_archive now s) = image_mset (toMemory now) (mset (active s))"
    unfolding eq by simp
  then have "mset (getActiveMemories_archive now s) = {#toMemory now e1, toMemory now e2, toMemory now e3#}"
    by (simp add: assms(1))
  then show ?thesis
    using listing_sorted [of now s] assms(5,6) by (intro sorted3 [where f = mtime]) simp_all
qed

text \<open>
  C1, as amended. With distinct entry names in the active partition and the force
  flag unset, the candidates are: first every listed record whose days since last
  modification exceed the threshold (14 in the shipped configuration), with the age
  reason; then, of the
  remaining records in ascending order of modification time, the first
  \<open>count(remaining) - maxActiveMemories\<close> (20 in the shipped configuration), none when
  the count does not exceed the limit, with the capacity reason. In particular, with
  exactly three records of modification times T1 < T2 < T3, none over the age
  threshold, a limit of 2 and the name of the oldest record absent from the archive,
  \<open>runArchive\<close> in apply mode moves the record of T1 to the archive and leaves the
  other two active.
\<close>

theorem archive_candidates:
  assumes "distinct (map fst (active s))"
  shows "archiveAfterDays getConfig = 14 \<and> maxActiveMemories getConfig = 20
    \<and> sorted (map mtime (getActiveMemories_archive now s))
    \<and> getMemoriesToArchive cfg now False s
        = map (\<lambda>m. (m, reasonAge cfg))
            (filter (\<lambda>m. daysSinceModified m > real (archiveAfterDays cfg))
               (getActiveMemories_archive now s))
          @ map (\<lambda>m. (m, reasonCapacity cfg))
              (take (length (filter (\<lambda>m. \<not> daysSinceModified m > real (archiveAfterDays cfg))
                               (getActiveMemories_archive now s))
                     - maxActiveMemories cfg)
                 (filter (\<lambda>m. \<not> daysSinceModified m > real (archiveAfterDays cfg))
                    (getActiveMemories_archive now s)))
    \<and> (mset (active s) = {#(n1, x1), (n2, x2), (n3, x3)#}
        \<and> startsWith n1 memPrefix \<and> startsWith n2 memPrefix \<and> startsWith n3 memPrefix
        \<and> mtime_of x1 < mtime_of x2 \<and> mtime_of x2 < mtime_of x3
        \<and> \<not> real_of_int (now - mtime_of x1) / 86400000 > real (archiveAfterDays cfg)
        \<and> \<not> real_of_int (now - mtime_of x2) / 86400000 > real (archiveAfterDays cfg)
        \<and> \<not> real_of_int (now - mtime_of x3) / 86400000 > real (archiveAfterDays cfg)
        \<and> maxActiveMemories cfg = 2 \<and> n1 \<notin> names (archive s)
        \<longrightarrow> (\<exists>s'. runArchive lc cfg now False False s = Inr s'
               \<and> mset (active s') = {#(n2, x2), (n3, x3)#}
               \<and> mset (archive s') = add_mset (n1, x1) (mset (archive s))))"
proof -
  let ?ms = "getActiveMemories_archive now s"
  let ?old = "\<lambda>m. daysSinceModified m > real (archiveAfterDays cfg)"
  note dm = listing_distinct [OF assms, of now]
  have general: "getMemoriesToArchive cfg now False s
        = map (\<lambda>m. (m, reasonAge cfg)) (filter ?old ?ms)
          @ map (\<lambda>m. (m, reasonCapacity cfg))
              (take (length (filter (\<lambda>m. \<not> ?old m) ?ms) - maxActiveMemories cfg)
                 (filter (\<lambda>m. \<not> ?old m) ?ms))"
    unfolding getMemoriesToArchive_def candidates_from [OF dm] by simp
  have scenario: "\<exists>s'. runArchive lc cfg now False False s = Inr s'
               \<and> mset (active s') = {#(n2, x2), (n3, x3)#}
               \<and> mset (archive s') = add_mset (n1, x1) (mset (archive s))"
    if a: "mset (active s) = {#(n1, x1), (n2, x2), (n3, x3)#}"
      and p: "startsWith n1 memPrefix" "startsWith n2 memPrefix" "startsWith n3 memPrefix"
      and t: "mtime_of x1 < mtime_of x2" "mtime_of x2 < mtime_of x3"
      and y: "\<not> real_of_int (now - mtime_of x1) / 86400000 > real (archiveAfterDays cfg)"
             "\<not> real_of_int (now - mtime_of x2) / 86400000 > real (archiveAfterDays cfg)"
             "\<not> real_of_int (now - mtime_of x3) / 86400000 > real (archiveAfterDays cfg)"
      and mx: "maxActiveMemories cfg = 2" and free: "n1 \<notin> names (archive s)"
  proof -
    let ?m1 = "toMemory now (n1, x1)"
    have ms: "?ms = [?m1, toMemory now (n2, x2), toMemory now (n3, x3)]"
      using three_listing [of s "(n1, x1)" "(n2, x2)" "(n3, x3)" now] a p t by simp
    have cands: "getMemoriesToArchive cfg now False s = [(?m1, reasonCapacity cfg)]"
      unfolding general ms using y mx by simp
    have "mset (map fst (active s)) = mset [n1, n2, n3]"
      by (simp add: a)
    then have "distinct [n1, n2, n3]"
      using assms mset_eq_imp_distinct_iff by blast
    then have ne: "n2 \<noteq> n1" "n3 \<noteq> n1" by auto
    have "set_mset (mset (active s)) = set_mset {#(n1, x1), (n2, x2), (n3, x3)#}"
      by (simp only: a)
    then have mem1: "(n1, x1) \<in> set (active s)"
      by simp
    with assms have look: "map_of (active s) n1 = Some x1" by simp
    let ?s1 = "ensureDataDir s"
    let ?s2 = "?s1\<lparr>active := removeEntry n1 (active ?s1), archive := archive ?s1 @ [(n1, x1)]\<rparr>"
    have "archiveMemory ?m1 s = Inr ?s2"
      unfolding archiveMemory_def toMemory_simps fst_conv
      by (rule renameSync_to_archive) (simp_all add: look free)
    then have run: "runArchive lc cfg now False False s = Inr (main lc ?s2)"
      by (simp add: runArchive_def cands)
    have "mset (removeEntry n1 (active s)) = filter_mset (\<lambda>(k, nd). k \<noteq> n1) (mset (active s))"
      by (simp add: removeEntry_def)
    then have "mset (removeEntry n1 (active s)) = {#(n2, x2), (n3, x3)#}"
      using ne by (simp add: a)
    with run show ?thesis by (simp add: main_partitions)
  qed
  show ?thesis
    using general scenario listing_sorted [of now s] by (simp add: getConfig_def)
qed

theorem archive_candidates_witness:
  "\<exists>s'. runArchive compareUnits \<lparr>maxActiveMemories = 2, archiveAfterDays = 14\<rparr> 40 False False
          \<lparr>active = [(ascii ''mem-b'', Dir 20 None None), (ascii ''mem-c'', Dir 30 None None),
                     (ascii ''mem-a'', Dir 10 None None)],
           archive = [], indexFile = None, skillFile = None\<rparr> = Inr s'
     \<and> mset (active s')
         = {#(ascii ''mem-b'', Dir 20 None None), (ascii ''mem-c'', Dir 30 None None)#}
     \<and> mset (archive s') = {#(ascii ''mem-a'', Dir 10 None None)#}"
proof -
  let ?s = "\<lparr>active = [(ascii ''mem-b'', Dir 20 None None), (ascii ''mem-c'', Dir 30 None None),
                     (ascii ''mem-a'', Dir 10 None None)],
           archive = [], indexFile = None, skillFile = None\<rparr>"
  let ?cfg = "\<lparr>maxActiveMemories = 2, archiveAfterDays = 14\<rparr>"
  have d: "distinct (map fst (active ?s))"
    by (simp add: ascii_def)
  have h: "mset (active ?s) = {#(ascii ''mem-a'', Dir 10 None None), (ascii ''mem-b'', Dir 20 None None),
                                (ascii ''mem-c'', Dir 30 None None)#}
        \<and> startsWith (ascii ''mem-a'') memPrefix \<and> startsWith (ascii ''mem-b'') memPrefix
        \<and> startsWith (ascii ''mem-c'') memPrefix
        \<and> mtime_of (Dir 10 None None) < mtime_of (Dir 20 None None)
        \<and> mtime_of (Dir 20 None None) < mtime_of (Dir 30 None None)
        \<and> \<not> real_of_int (40 - mtime_of (Dir 10 None None)) / 86400000 > real (archiveAfterDays ?cfg)
        \<and> \<not> real_of_int (40 - mtime_of (Dir 20 None None)) / 86400000 > real (archiveAfterDays ?cfg)
        \<and> \<not> real_of_int (40 - mtime_of (Dir 30 None None)) / 86400000 > real (archiveAfterDays ?cfg)
        \<and> maxActiveMemories ?cfg = 2 \<and> ascii ''mem-a'' \<notin> names (archive ?s)"
    by (simp add: memPrefix_def names_def string_defs)
  from archive_candidates [OF d, of 40 ?cfg "ascii ''mem-a''" "Dir 10 None None"
      "ascii ''mem-b''" "Dir 20 None None" "ascii ''mem-c''" "Dir 30 None None" compareUnits] h
  obtain s' where "runArchive compareUnits ?cfg 40 False False ?s = Inr s'"
    "mset (active s') = {#(ascii ''mem-b'', Dir 20 None None), (ascii ''mem-c'', Dir 30 None None)#}"
    "mset (archive s') = add_mset (ascii ''mem-a'', Dir 10 None None) (mset (archive ?s))"
    by blast
  then show ?thesis by simp
qed

text \<open>
  C1, as stated, fails: the three-record scenario says nothing of the archive. When
  the name of the oldest record also names a directory with content there, a state
  that \<open>createMemory\<close> can produce, every condition of the scenario holds, and the
  relocation is refused: \<open>runArchive\<close> ends with the exception and moves nothing.
\<close>

theorem runArchive_fails_on_archived_name:
  "runArchive compareUnits \<lparr>maxActiveMemories = 2, archiveAfterDays = 14\<rparr> 40 False False
     \<lparr>active = [(ascii ''mem-a'', Dir 10 (Some []) None), (ascii ''mem-b'', Dir 20 (Some []) None),
                (ascii ''mem-c'', Dir 30 (Some []) None)],
      archive = [(ascii ''mem-a'', Dir 5 (Some []) None)],
      indexFile = None, skillFile = None\<rparr>
   = Inl (Uncaught ENOTEMPTY)"
proof -
  let ?s = "\<lparr>active = [(ascii ''mem-a'', Dir 10 (Some []) None), (ascii ''mem-b'', Dir 20 (Some []) None),
                (ascii ''mem-c'', Dir 30 (Some []) None)],
      archive = [(ascii ''mem-a'', Dir 5 (Some []) None)],
      indexFile = None, skillFile = None\<rparr>"
  let ?cfg = "\<lparr>maxActiveMemories = 2, archiveAfterDays = 14\<rparr>"
  let ?m1 = "toMemory 40 (ascii ''mem-a'', Dir 10 (Some []) None)"
  have l: "getActiveMemories_archive 40 ?s
      = [?m1, toMemory 40 (ascii ''mem-b'', Dir 20 (Some []) None),
         toMemory 40 (ascii ''mem-c'', Dir 30 (Some []) None)]"
    by (rule three_listing) (simp_all add: memPrefix_def string_defs)
  have "distinct (map name (getActiveMemories_archive 40 ?s))"
    unfolding l by (simp add: ascii_def)
  then have c: "getMemoriesToArchive ?cfg 40 False ?s = [(?m1, reasonCapacity ?cfg)]"
    unfolding getMemoriesToArchive_def by (simp add: candidates_from l)
  have "archiveMemory ?m1 ?s = Inl (Uncaught ENOTEMPTY)"
    by (simp add: archiveMemory_def renameSync_def ensureDataDir_def)
  then show ?thesis
    by (simp add: runArchive_def c)
qed

lemma reasons_differ:
  "reasonAge cfg \<noteq> reasonCapacity cfg'" "reasonForced \<noteq> reasonCapacity cfg'"
  by (simp_all add: reasonAge_def reasonCapacity_def reasonForced_def)

text \<open>
  C2. With the force flag set and a record remaining after the age rule, the
  candidates are the aged records followed by exactly one more: the first of the
  remaining records, none of which is older, with the forced reason. This holds for
  every limit, and no candidate carries the capacity reason.
\<close>

theorem forced_candidate:
  assumes "distinct (map fst (active s))"
    and "filter (\<lambda>m. \<not> daysSinceModified m > real (archiveAfterDays cfg))
           (getActiveMemories_archive now s) = m # rest"
  shows "getMemoriesToArchive cfg now True s
      = map (\<lambda>a. (a, reasonAge cfg))
          (filter (\<lambda>m. daysSinceModified m > real (archiveAfterDays cfg))
             (getActiveMemories_archive now s))
        @ [(m, reasonForced)]
    \<and> (\<forall>x \<in> set rest. mtime m \<le> mtime x)
    \<and> reasonCapacity cfg \<notin> snd ` set (getMemoriesToArchive cfg now True s)"
proof -
  let ?ms = "getActiveMemories_archive now s"
  let ?old = "\<lambda>m. daysSinceModified m > real (archiveAfterDays cfg)"
  note dm = listing_distinct [OF assms(1), of now]
  have cands: "getMemoriesToArchive cfg now True s
      = map (\<lambda>a. (a, reasonAge cfg)) (filter ?old ?ms) @ [(m, reasonForced)]"
    unfolding getMemoriesToArchive_def candidates_from [OF dm] by (simp add: assms(2))
  have "sorted (map mtime (filter (\<lambda>m. \<not> ?old m) ?ms))"
    using listing_sorted [of now s] by (simp add: sorted_filter)
  then have oldest: "\<forall>x \<in> set rest. mtime m \<le> mtime x"
    by (simp add: assms(2))
  have "reasonCapacity cfg \<notin> snd ` set (getMemoriesToArchive cfg now True s)"
    unfolding cands using reasons_differ(1) [of cfg cfg] reasons_differ(2) [of cfg]
    by (auto simp: image_iff)
  with cands oldest show ?thesis by simp
qed

theorem forced_candidate_witness:
  "getMemoriesToArchive \<lparr>maxActiveMemories = 20, archiveAfterDays = 14\<rparr> 40 True
          \<lparr>active = [(ascii ''mem-b'', Dir 20 None None), (ascii ''mem-c'', Dir 30 None None),
                     (ascii ''mem-a'', Dir 10 None None)],
           archive = [], indexFile = None, skillFile = None\<rparr>
   = [(toMemory 40 (ascii ''mem-a'', Dir 10 None None), reasonForced)]"
proof -
  let ?s = "\<lparr>active = [(ascii ''mem-b'', Dir 20 None None), (ascii ''mem-c'', Dir 30 None None),
                     (ascii ''mem-a'', Dir 10 None None)],
           archive = [], indexFile = None, skillFile = None\<rparr>"
  let ?cfg = "\<lparr>maxActiveMemories = 20, archiveAfterDays = 14\<rparr>"
  have d: "distinct (map fst (active ?s))"
    by (simp add: ascii_def)
  have l: "getActiveMemories_archive 40 ?s
      = [toMemory 40 (ascii ''mem-a'', Dir 10 None None), toMemory 40 (ascii ''mem-b'', Dir 20 None None),
         toMemory 40 (ascii ''mem-c'', Dir 30 None None)]"
    by (rule three_listing) (simp_all add: memPrefix_def string_defs)
  have f: "filter (\<lambda>m. \<not> daysSinceModified m > real (archiveAfterDays ?cfg))
           (getActiveMemories_archive 40 ?s)
      = toMemory 40 (ascii ''mem-a'', Dir 10 None None)
        # [toMemory 40 (ascii ''mem-b'', Dir 20 None None),
           toMemory 40 (ascii ''mem-c'', Dir 30 None None)]"
    unfolding l by simp
  from forced_candidate [OF d f] show ?thesis
    unfolding l by simp
qed

subsection \<open>Uniqueness of record names\<close>

text \<open>
  C3, as amended. \<open>createMemory\<close> refuses a name of the active partition; it keeps the
  names unique when the name is not in the archive either. Archival (a dry run or an
  apply run, forced or not), reactivation and the Index Builder keep them unique, and
  archival never fails from a state with unique names.
\<close>

theorem relocation_keeps_names_unique:
  assumes "uniqueNames s"
  shows "(n \<in> names (active s) \<longrightarrow> createMemory n date s = Inl DuplicateRecord)
    \<and> (\<forall>s'. createMemory n date s = Inr s' \<and> n \<notin> names (archive s) \<longrightarrow> uniqueNames s')
    \<and> (\<exists>s'. runArchive lc cfg now dryRun force s = Inr s' \<and> uniqueNames s')
    \<and> uniqueNames (snd (activateMemory lc n s))
    \<and> uniqueNames (main lc s)"
  using assms createMemory_duplicate createMemory_unique runArchive_ok activateMemory_unique
  by (auto simp del: uniqueNames_main simp: uniqueNames_main)

theorem relocation_keeps_names_unique_witness:
  "(\<exists>s'. runArchive compareUnits getConfig 40 False True
          \<lparr>active = [(ascii ''mem-b'', Dir 20 None None)],
           archive = [(ascii ''mem-a'', Dir 10 None None)],
           indexFile = None, skillFile = None\<rparr> = Inr s' \<and> uniqueNames s')
   \<and> uniqueNames (snd (activateMemory compareUnits (ascii ''mem-a'')
          \<lparr>active = [(ascii ''mem-b'', Dir 20 None None)],
           archive = [(ascii ''mem-a'', Dir 10 None None)],
           indexFile = None, skillFile = None\<rparr>))
   \<and> createMemory (ascii ''mem-b'')
          \<lparr>getTime = 50, getFullYear = 2026, getMonth = 0, getDate = 12, getHours = 9,
          getMinutes = 0, getSeconds = 0\<rparr>
          \<lparr>active = [(ascii ''mem-b'', Dir 20 None None)],
           archive = [(ascii ''mem-a'', Dir 10 None None)],
           indexFile = None, skillFile = None\<rparr> = Inl DuplicateRecord
   \<and> (\<exists>s'. createMemory (ascii ''mem-c'')
          \<lparr>getTime = 50, getFullYear = 2026, getMonth = 0, getDate = 12, getHours = 9,
          getMinutes = 0, getSeconds = 0\<rparr>
          \<lparr>active = [(ascii ''mem-b'', Dir 20 None None)],
           archive = [(ascii ''mem-a'', Dir 10 None None)],
           indexFile = None, skillFile = None\<rparr> = Inr s' \<and> uniqueNames s')"
proof -
  let ?s = "\<lparr>active = [(ascii ''mem-b'', Dir 20 None None)],
           archive = [(ascii ''mem-a'', Dir 10 None None)],
           indexFile = None, skillFile = None\<rparr>"
  let ?d = "\<lparr>getTime = 50, getFullYear = 2026, getMonth = 0, getDate = 12, getHours = 9,
          getMinutes = 0, getSeconds = 0\<rparr>"
  have u: "uniqueNames ?s"
    by (simp add: uniqueNames_def names_def ascii_def)
  note t = relocation_keeps_names_unique [OF u, of _ ?d compareUnits getConfig 40 False True]
  have a: "ascii ''mem-b'' \<in> names (active ?s)" "ascii ''mem-c'' \<notin> names (archive ?s)"
    by (simp_all add: names_def ascii_def)
  have "\<exists>s'. createMemory (ascii ''mem-c'') ?d ?s = Inr s'"
    by (simp add: createMemory_def existsSync_def ascii_def Let_def)
  with t [of "ascii ''mem-c''"] a(2)
  have c: "\<exists>s'. createMemory (ascii ''mem-c'') ?d ?s = Inr s' \<and> uniqueNames s'"
    by blast
  from t [of "ascii ''mem-b''"] a(1)
  have b: "createMemory (ascii ''mem-b'') ?d ?s = Inl DuplicateRecord"
    by blast
  from t [of "ascii ''mem-a''"] b c show ?thesis by blast
qed

text \<open>
  C3, as stated, fails: \<open>createMemory\<close> looks for the name in the active partition only,
  so a name that resides in the archive is created a second time.
\<close>

theorem createMemory_duplicates_archived_name:
  "uniqueNames \<lparr>active = [], archive = [(ascii ''mem-20260111-143000'', Dir 0 None None)],
                indexFile = None, skillFile = None\<rparr>
   \<and> createMemory (ascii ''mem-20260111-143000'')
        \<lparr>getTime = 1, getFullYear = 2026, getMonth = 0, getDate = 12, getHours = 9,
         getMinutes = 0, getSeconds = 0\<rparr>
        \<lparr>active = [], archive = [(ascii ''mem-20260111-143000'', Dir 0 None None)],
         indexFile = None, skillFile = None\<rparr>
     = Inr \<lparr>active = [(ascii ''mem-20260111-143000'',
                        Dir 1 (Some (generateSummaryTemplate
                                 \<lparr>getTime = 1, getFullYear = 2026, getMonth = 0, getDate = 12,
                                  getHours = 9, getMinutes = 0, getSeconds = 0\<rparr>))
                              (Some (generateConversationTemplate
                                 \<lparr>getTime = 1, getFullYear = 2026, getMonth = 0, getDate = 12,
                                  getHours = 9, getMinutes = 0, getSeconds = 0\<rparr>)))],
            archive = [(ascii ''mem-20260111-143000'', Dir 0 None None)],
            indexFile = Some initialContent, skillFile = None\<rparr>
   \<and> \<not> uniqueNames
        \<lparr>active = [(ascii ''mem-20260111-143000'',
                        Dir 1 (Some (generateSummaryTemplate
                                 \<lparr>getTime = 1, getFullYear = 2026, getMonth = 0, getDate = 12,
                                  getHours = 9, getMinutes = 0, getSeconds = 0\<rparr>))
                              (Some (generateConversationTemplate
                                 \<lparr>getTime = 1, getFullYear = 2026, getMonth = 0, getDate = 12,
                                  getHours = 9, getMinutes = 0, getSeconds = 0\<rparr>)))],
            archive = [(ascii ''mem-20260111-143000'', Dir 0 None None)],
            indexFile = Some initialContent, skillFile = None\<rparr>"
  by (simp add: uniqueNames_def names_def createMemory_def ensureDataDir_def existsSync_def Let_def)

subsection \<open>Reactivation\<close>

text \<open>
  C9, as amended. \<open>activateMemory\<close> looks into the archive first. A name that is not
  there is a reported no-op (exit code 0) when it is in the active partition and the
  failure \<open>NotFound\<close> (exit code 1) when it is not. A name of the archive that is free
  in the active partition is moved there, and the Index Builder runs on the result.
\<close>

theorem activateMemory_cases:
  "(\<not> existsSync (archive s) n \<and> existsSync (active s) n
      \<longrightarrow> activateMemory lc n s = (AlreadyActive, ensureDataDir s))
   \<and> (\<not> existsSync (archive s) n \<and> \<not> existsSync (active s) n
      \<longrightarrow> activateMemory lc n s = (Failed NotFound, ensureDataDir s))
   \<and> (map_of (archive s) n = Some nd \<and> \<not> existsSync (active s) n
      \<longrightarrow> activateMemory lc n s
          = (Activated, main lc ((ensureDataDir s)\<lparr>archive := removeEntry n (archive s),
                                                    active := active s @ [(n, nd)]\<rparr>)))
   \<and> exitCode AlreadyActive = 0 \<and> exitCode Activated = 0 \<and> exitCode (Failed NotFound) = 1"
proof -
  have "activateMemory lc n s
          = (Activated, main lc ((ensureDataDir s)\<lparr>archive := removeEntry n (archive s),
                                                    active := active s @ [(n, nd)]\<rparr>))"
    if a: "map_of (archive s) n = Some nd" and b: "\<not> existsSync (active s) n"
  proof -
    let ?s1 = "ensureDataDir s"
    have "renameSync (Archive, n) (Active, n) ?s1
       = Inr (?s1\<lparr>archive := removeEntry n (archive ?s1), active := active ?s1 @ [(n, nd)]\<rparr>)"
      using a b by (intro renameSync_to_active) (simp_all add: existsSync_names)
    moreover have "existsSync (archive ?s1) n"
      using a by (simp add: existsSync_def)
    ultimately show ?thesis
      by (simp add: activateMemory_def Let_def)
  qed
  then show ?thesis
    by (simp add: activateMemory_def Let_def)
qed

theorem activateMemory_cases_witness:
  "activateMemory compareUnits (ascii ''mem-b'')
      \<lparr>active = [(ascii ''mem-b'', Dir 20 None None)],
       archive = [(ascii ''mem-a'', Dir 10 None None)],
       indexFile = Some [], skillFile = None\<rparr>
     = (AlreadyActive,
        \<lparr>active = [(ascii ''mem-b'', Dir 20 None None)],
         archive = [(ascii ''mem-a'', Dir 10 None None)],
         indexFile = Some [], skillFile = None\<rparr>)
   \<and> fst (activateMemory compareUnits (ascii ''mem-c'')
      \<lparr>active = [(ascii ''mem-b'', Dir 20 None None)],
       archive = [(ascii ''mem-a'', Dir 10 None None)],
       indexFile = Some [], skillFile = None\<rparr>) = Failed NotFound
   \<and> fst (activateMemory compareUnits (ascii ''mem-a'')
      \<lparr>active = [(ascii ''mem-b'', Dir 20 None None)],
       archive = [(ascii ''mem-a'', Dir 10 None None)],
       indexFile = Some [], skillFile = None\<rparr>) = Activated
   \<and> active (snd (activateMemory compareUnits (ascii ''mem-a'')
      \<lparr>active = [(ascii ''mem-b'', Dir 20 None None)],
       archive = [(ascii ''mem-a'', Dir 10 None None)],
       indexFile = Some [], skillFile = None\<rparr>))
     = [(ascii ''mem-b'', Dir 20 None None), (ascii ''mem-a'', Dir 10 None None)]
   \<and> archive (snd (activateMemory compareUnits (ascii ''mem-a'')
      \<lparr>active = [(ascii ''mem-b'', Dir 20 None None)],
       archive = [(ascii ''mem-a'', Dir 10 None None)],
       indexFile = Some [], skillFile = None\<rparr>)) = []"
proof -
  let ?s = "\<lparr>active = [(ascii ''mem-b'', Dir 20 None None)],
       archive = [(ascii ''mem-a'', Dir 10 None None)],
       indexFile = Some [], skillFile = None\<rparr>"
  have e: "\<not> existsSync (archive ?s) (ascii ''mem-b'')" "existsSync (active ?s) (ascii ''mem-b'')"
    "\<not> existsSync (archive ?s) (ascii ''mem-c'')" "\<not> existsSync (active ?s) (ascii ''mem-c'')"
    "map_of (archive ?s) (ascii ''mem-a'') = Some (Dir 10 None None)"
    "\<not> existsSync (active ?s) (ascii ''mem-a'')"
    by (simp_all add: existsSync_def ascii_def)
  have i: "ensureDataDir ?s = ?s"
    by (simp add: ensureDataDir_def)
  have r: "removeEntry (ascii ''mem-a'') [(ascii ''mem-a'', Dir 10 None None)] = []"
    by (simp add: removeEntry_def)
  have 1: "activateMemory compareUnits (ascii ''mem-b'') ?s = (AlreadyActive, ?s)"
    using activateMemory_cases [of ?s "ascii ''mem-b''" compareUnits] e(1,2) i by simp
  have 2: "fst (activateMemory compareUnits (ascii ''mem-c'') ?s) = Failed NotFound"
    using activateMemory_cases [of ?s "ascii ''mem-c''" compareUnits] e(3,4) by simp
  have 3: "activateMemory compareUnits (ascii ''mem-a'') ?s
      = (Activated, main compareUnits ((ensureDataDir ?s)\<lparr>archive := removeEntry (ascii ''mem-a'') (archive ?s),
           active := active ?s @ [(ascii ''mem-a'', Dir 10 None None)]\<rparr>))"
    using activateMemory_cases [of ?s "ascii ''mem-a''" compareUnits "Dir 10 None None"] e(5,6) by blast
  have 4: "fst (activateMemory compareUnits (ascii ''mem-a'') ?s) = Activated"
    "active (snd (activateMemory compareUnits (ascii ''mem-a'') ?s))
       = [(ascii ''mem-b'', Dir 20 None None), (ascii ''mem-a'', Dir 10 None None)]"
    "archive (snd (activateMemory compareUnits (ascii ''mem-a'') ?s)) = []"
    unfolding 3 by (simp_all add: main_partitions r)
  from 1 2 4 show ?thesis by blast
qed

text \<open>
  C9, as stated, fails for a name that resides in both partitions, a state that
  \<open>createMemory\<close> can produce: the record is in the active partition, yet the call is
  not a no-op; it attempts the relocation, which the file system refuses.
\<close>

theorem activateMemory_in_both_partitions:
  "existsSync (active \<lparr>active = [(ascii ''mem-a'', Dir 20 (Some []) None)],
                       archive = [(ascii ''mem-a'', Dir 10 (Some []) None)],
                       indexFile = Some [], skillFile = None\<rparr>) (ascii ''mem-a'')
   \<and> activateMemory compareUnits (ascii ''mem-a'')
        \<lparr>active = [(ascii ''mem-a'', Dir 20 (Some []) None)],
         archive = [(ascii ''mem-a'', Dir 10 (Some []) None)],
         indexFile = Some [], skillFile = None\<rparr>
     = (Failed (Uncaught ENOTEMPTY),
        \<lparr>active = [(ascii ''mem-a'', Dir 20 (Some []) None)],
         archive = [(ascii ''mem-a'', Dir 10 (Some []) None)],
         indexFile = Some [], skillFile = None\<rparr>)
   \<and> exitCode (Failed (Uncaught ENOTEMPTY)) = 1"
  by (simp add: activateMemory_def renameSync_def existsSync_def ensureDataDir_def Let_def)

subsection \<open>Search\<close>

lemmas search_defs = searchMemories_def getMemories_def readConversation_def sort_by_def
  memPrefix_def getMemoryInfo_def topicOr_def keywordsOr_def titleZh_def keywordsZh_def
  asciiLower_def Let_def

text \<open>
  C5. Search matches case-insensitively, in both partitions, on the name, on the
  topic and the keyword field it extracts, and on the conversation document: the
  last statement shows one record found by each, in a store of five. But it extracts
  with \<open>getMemoryInfo\<close>, which knows the Chinese labels only: a record whose summary
  title, in the English format, gives it the topic \<open>API Design\<close> matches the keyword
  \<open>api\<close> by the specification and is not returned.
\<close>

theorem search_misses_english_title:
  "specMatches asciiLower (ascii ''api'')
     (ascii ''mem-20260111-143000'', Dir 5 (Some (ascii ''# Conversation Memory: API Design'')) None)
   \<and> searchMemories asciiLower (ascii ''api'')
       \<lparr>active = [],
        archive = [(ascii ''mem-20260111-143000'',
                    Dir 5 (Some (ascii ''# Conversation Memory: API Design'')) None)],
        indexFile = None, skillFile = None\<rparr> = []
   \<and> map (\<lambda>(mem, location). (name mem, location)) (searchMemories asciiLower (ascii ''api'')
       \<lparr>active = [(ascii ''mem-1'', Dir 4 None (Some (ascii ''About the Api''))),
                  (ascii ''mem-2'',
                   Dir 3 (Some ([0x2A, 0x2A, 0x5173, 0x952E, 0x8BCD, 0x2A, 0x2A, 0xFF1A]
                                @ ascii ''REST, API'')) None),
                  (ascii ''mem-3'', Dir 2 (Some (ascii ''x'')) (Some (ascii ''y'')))],
        archive = [(ascii ''mem-4'',
                    Dir 1 (Some ([0x23, 0x20, 0x5BF9, 0x8BDD, 0x8BB0, 0x5FC6, 0xFF1A]
                                 @ ascii ''API Design'')) None),
                   (ascii ''mem-API'', File 0)],
        indexFile = None, skillFile = None\<rparr>)
     = [(ascii ''mem-1'', Active), (ascii ''mem-2'', Active), (ascii ''mem-4'', Archive),
        (ascii ''mem-API'', Archive)]"
proof -
  have a: "specMatches asciiLower (ascii ''api'')
     (ascii ''mem-20260111-143000'', Dir 5 (Some (ascii ''# Conversation Memory: API Design'')) None)"
    by (simp add: specMatches_def extractMemoryInfo_def titleEn_def keywordsEn_def timeEn_def
        titleZh_def keywordsZh_def timeZh_def firstWord_def asciiLower_def regex_defs string_defs)
  have b: "searchMemories asciiLower (ascii ''api'')
       \<lparr>active = [],
        archive = [(ascii ''mem-20260111-143000'',
                    Dir 5 (Some (ascii ''# Conversation Memory: API Design'')) None)],
        indexFile = None, skillFile = None\<rparr> = []"
    by (simp add: search_defs regex_defs string_defs)
  have c: "map (\<lambda>(mem, location). (name mem, location)) (searchMemories asciiLower (ascii ''api'')
       \<lparr>active = [(ascii ''mem-1'', Dir 4 None (Some (ascii ''About the Api''))),
                  (ascii ''mem-2'',
                   Dir 3 (Some ([0x2A, 0x2A, 0x5173, 0x952E, 0x8BCD, 0x2A, 0x2A, 0xFF1A]
                                @ ascii ''REST, API'')) None),
                  (ascii ''mem-3'', Dir 2 (Some (ascii ''x'')) (Some (ascii ''y'')))],
        archive = [(ascii ''mem-4'',
                    Dir 1 (Some ([0x23, 0x20, 0x5BF9, 0x8BDD, 0x8BB0, 0x5FC6, 0xFF1A]
                                 @ ascii ''API Design'')) None),
                   (ascii ''mem-API'', File 0)],
        indexFile = None, skillFile = None\<rparr>)
     = [(ascii ''mem-1'', Active), (ascii ''mem-2'', Active), (ascii ''mem-4'', Archive),
        (ascii ''mem-API'', Archive)]"
    by (simp add: search_defs regex_defs string_defs)
  from a b c show ?thesis by (intro conjI)
qed

subsection \<open>Running the Index Builder twice\<close>

lemma main_active_listing:
  "getActiveMemories lc (active (main lc s)) = getActiveMemories lc (active s)"
  by (simp add: main_partitions)

lemma main_skillFile_Some:
  "skillFile s = Some content \<Longrightarrow> active s = d
   \<Longrightarrow> descriptionKeywords (getActiveMemories lc d) = kw
   \<Longrightarrow> skillFile (main lc s)
       = Some (replace skillZh (ascii ''Active memory keywords: '' @ kw)
                (replace skillEn (ascii ''Active memory keywords: '' @ kw) content))"
  by (simp add: main_skillFile)

lemmas index_defs = getActiveMemories_def extractMemoryInfo_def collectAllKeywords_def
  descriptionKeywords_def addKeyword_def set_add_def placeholders_def isComma_def sort_by_def
  memPrefix_def titleEn_def titleZh_def keywordsEn_def keywordsZh_def timeEn_def timeZh_def
  firstWord_def

lemmas replace_defs = replace_def skillEn_def skillZh_def

text \<open>
  C6. A second run of the Index Builder writes the index document of the first run,
  and computes the same keyword text for the skill description. The skill description
  itself is not always rewritten identically. The keyword text is passed to
  \<open>replace\<close> as a replacement pattern: with the keyword \<open>$&\<close> the keyword line grows by
  the old line at every run. And each run rewrites only the first line with the
  Chinese label, into a line with the English label: of two such lines the second is
  rewritten by the second run.
\<close>

theorem index_builder_twice:
  "indexFile (main lc (main lc s)) = indexFile (main lc s)
   \<and> descriptionKeywords (getActiveMemories lc (active (main lc s)))
     = descriptionKeywords (getActiveMemories lc (active s))
   \<and> skillFile (main compareUnits
        \<lparr>active = [(ascii ''mem-1'', Dir 0 (Some (ascii ''**Keywords**: $&'')) None)],
         archive = [], indexFile = None,
         skillFile = Some (ascii ''Active memory keywords: x'')\<rparr>)
     = Some (ascii ''Active memory keywords: Active memory keywords: x'')
   \<and> skillFile (main compareUnits (main compareUnits
        \<lparr>active = [(ascii ''mem-1'', Dir 0 (Some (ascii ''**Keywords**: $&'')) None)],
         archive = [], indexFile = None,
         skillFile = Some (ascii ''Active memory keywords: x'')\<rparr>))
     = Some (ascii ''Active memory keywords: Active memory keywords: Active memory keywords: x'')
   \<and> skillFile (main compareUnits
        \<lparr>active = [], archive = [], indexFile = None,
         skillFile = Some ([0x6D3B, 0x8DC3, 0x8BB0, 0x5FC6, 0x5173, 0x952E, 0x8BCD, 0xFF1A]
                           @ ascii ''a\<newline>''
                           @ [0x6D3B, 0x8DC3, 0x8BB0, 0x5FC6, 0x5173, 0x952E, 0x8BCD, 0xFF1A]
                           @ ascii ''b'')\<rparr>)
     = Some (ascii ''Active memory keywords: (no active memories)\<newline>''
             @ [0x6D3B, 0x8DC3, 0x8BB0, 0x5FC6, 0x5173, 0x952E, 0x8BCD, 0xFF1A] @ ascii ''b'')
   \<and> skillFile (main compareUnits (main compareUnits
        \<lparr>active = [], archive = [], indexFile = None,
         skillFile = Some ([0x6D3B, 0x8DC3, 0x8BB0, 0x5FC6, 0x5173, 0x952E, 0x8BCD, 0xFF1A]
                           @ ascii ''a\<newline>''
                           @ [0x6D3B, 0x8DC3, 0x8BB0, 0x5FC6, 0x5173, 0x952E, 0x8BCD, 0xFF1A]
                           @ ascii ''b'')\<rparr>))
     = Some (ascii ''Active memory keywords: (no active memories)\<newline>Active memory keywords: (no active memories)'')"
proof -
  let ?lc = compareUnits
  let ?da = "[(ascii ''mem-1'', Dir 0 (Some (ascii ''**Keywords**: $&'')) None)]"
  let ?sa = "\<lparr>active = ?da, archive = [], indexFile = None,
         skillFile = Some (ascii ''Active memory keywords: x'')\<rparr>"
  let ?zh = "[0x6D3B, 0x8DC3, 0x8BB0, 0x5FC6, 0x5173, 0x952E, 0x8BCD, 0xFF1A] :: jsstring"
  let ?sb = "\<lparr>active = [], archive = [], indexFile = None,
         skillFile = Some (?zh @ ascii ''a\<newline>'' @ ?zh @ ascii ''b'')\<rparr>"
  have idx: "indexFile (main lc (main lc s)) = indexFile (main lc s)"
    by (simp add: main_indexFile main_partitions)
  have kws: "descriptionKeywords (getActiveMemories lc (active (main lc s)))
     = descriptionKeywords (getActiveMemories lc (active s))"
    by (simp add: main_partitions)
  have ka: "descriptionKeywords (getActiveMemories ?lc ?da) = ascii ''$&''"
    by (simp add: index_defs regex_defs string_defs)
  have kb: "descriptionKeywords (getActiveMemories ?lc []) = ascii ''(no active memories)''"
    by (simp add: index_defs)
  have a1: "skillFile (main ?lc ?sa) = Some (ascii ''Active memory keywords: Active memory keywords: x'')"
    by (subst main_skillFile_Some [where content = "ascii ''Active memory keywords: x''", OF _ _ ka])
       (simp_all add: replace_defs regex_defs string_defs)
  have a2: "skillFile (main ?lc (main ?lc ?sa))
     = Some (ascii ''Active memory keywords: Active memory keywords: Active memory keywords: x'')"
    by (subst main_skillFile_Some [OF a1 _ ka])
       (simp_all add: main_partitions replace_defs regex_defs string_defs)
  have b1: "skillFile (main ?lc ?sb)
     = Some (ascii ''Active memory keywords: (no active memories)\<newline>'' @ ?zh @ ascii ''b'')"
    by (subst main_skillFile_Some [where content = "?zh @ ascii ''a\<newline>'' @ ?zh @ ascii ''b''", OF _ _ kb])
       (simp_all add: replace_defs regex_defs string_defs)
  have b2: "skillFile (main ?lc (main ?lc ?sb))
     = Some (ascii ''Active memory keywords: (no active memories)\<newline>Active memory keywords: (no active memories)'')"
    by (subst main_skillFile_Some [OF b1 _ kb])
       (simp_all add: main_partitions replace_defs regex_defs string_defs)
  from idx kws a1 a2 b1 b2 show ?thesis by (intro conjI)
qed

end
